theory Spec2Isabelle
  imports Complex_Main "HOL-Library.AList" "HOL-Library.Sublist"
begin

section \<open>Prediction post-processing (prediction\_controller.py, \_process\_results)\<close>

text \<open>
  Python floats are read as the real numbers they denote; comparisons of floats are exact,
  so the branch structure below is the one of the source. Rounding of float addition and
  the values NaN and infinity are outside this model.
  The connected-component labelling and the shape statistics are SimpleITK calls; their
  outputs (the label image and the statistics filter) are inputs of the model.
\<close>

type_synonym volume = "real list list list"
type_synonym label_image = "nat list list list"

definition MODEL_THRESHOLD :: real where
  "MODEL_THRESHOLD = 0.5"

text \<open>\<^verbatim>\<open>(lesion_probability > MODEL_THRESHOLD).astype(np.float32)\<close>, elementwise.\<close>

definition threshold_mask :: "real \<Rightarrow> volume \<Rightarrow> volume" where
  "threshold_mask thr vol = map (map (map (\<lambda>p. if p > thr then 1 else 0))) vol"

text \<open>The statistics filter after \<^verbatim>\<open>stats.Execute(connected_components)\<close>.
  \<open>GetPrincipalAxes\<close> is \<open>None\<close> when the filter object has no such method
  (the \<^verbatim>\<open>hasattr\<close> test of the source).\<close>

record shape_stats =
  GetLabels :: "nat list"
  GetPhysicalSize :: "nat \<Rightarrow> real"
  GetPrincipalAxes :: "(nat \<Rightarrow> real list) option"
  GetCentroid :: "nat \<Rightarrow> real list"

record lesion =
  lesion_id :: int
  volume_mm3 :: real
  max_diameter_mm :: real
  centroid :: "real list"
  probability :: real
  severity :: string

record results =
  segmentation :: volume
  lesions :: "lesion list"
  num_lesions :: nat
  has_significant_lesion :: bool
  total_lesion_volume :: real
  prediction_date :: string

text \<open>\<^verbatim>\<open>np.linalg.norm\<close> of a vector.\<close>

definition norm2 :: "real list \<Rightarrow> real" where
  "norm2 v = sqrt (sum_list (map (\<lambda>x. x * x) v))"

text \<open>The maximum diameter of one label (lines 312 to 322).\<close>

definition max_diameter_of :: "shape_stats \<Rightarrow> nat \<Rightarrow> real \<Rightarrow> real" where
  "max_diameter_of stats label vol_mm3 =
     (case GetPrincipalAxes stats of
        Some get_axes \<Rightarrow>
          (let axes = get_axes label in
           Max (set [norm2 (take 3 axes), norm2 (take 3 (drop 3 axes)), norm2 (take 3 (drop 6 axes))]))
      | None \<Rightarrow> 2 * (((3 * vol_mm3) / (4 * pi)) powr (1 / 3)))"

text \<open>\<^verbatim>\<open>np.mean(lesion_probability[label_mask])\<close> with
  \<^verbatim>\<open>label_mask = (array == label)\<close>: the mean of the probabilities of the voxels
  carrying the label. A label listed by the statistics filter has at least one voxel; for
  a label with none numpy gives NaN, which this model does not represent.\<close>

definition flat :: "'a list list list \<Rightarrow> 'a list" where
  "flat vol = concat (concat vol)"

definition mean_probability_of :: "volume \<Rightarrow> label_image \<Rightarrow> nat \<Rightarrow> real" where
  "mean_probability_of prob cc label =
     (let sel = map fst (filter (\<lambda>(p, l). l = label) (zip (flat prob) (flat cc)))
      in sum_list sel / real (length sel))"

text \<open>
  The mean probability is a numpy float32 scalar and the thresholds are Python float
  literals. How numpy compares the two depends on its version (the project asks for
  numpy 1.19 or later): before NumPy 2 the float32 value is widened and compared with the
  double nearest to the literal (\<open>Legacy\<close>); from NumPy 2 on the literal is rounded to
  float32 first (\<open>Weak\<close>). 0.75 is a float32 and a double, so only 0.6 is affected:
  the double nearest to 0.6 is \<open>5404319552844595 / 2^53\<close>, just below it, and the
  float32 nearest to 0.6 is \<open>5033165 / 2^23\<close>, just above it. The volume is a Python
  float compared with integers, which is exact.
\<close>

datatype promotion = Legacy | Weak

definition float64_of_0_6 :: real where
  "float64_of_0_6 = 5404319552844595 / 9007199254740992"

definition float32_of_0_6 :: real where
  "float32_of_0_6 = 5033165 / 8388608"

definition media_threshold :: "promotion \<Rightarrow> real" where
  "media_threshold pr = (case pr of Legacy \<Rightarrow> float64_of_0_6 | Weak \<Rightarrow> float32_of_0_6)"

text \<open>The severity decision (lines 333 to 338), in the order of the source.\<close>

definition classify_severity :: "promotion \<Rightarrow> real \<Rightarrow> real \<Rightarrow> string" where
  "classify_severity pr vol_mm3 mean_probability =
     (if vol_mm3 > 500 \<and> mean_probability > 0.75 then ''Alta''
      else if vol_mm3 > 200 \<or> mean_probability > media_threshold pr then ''Media''
      else ''Baja'')"

text \<open>The decision as the specification words it, with the thresholds read as the real
  numbers 0.75 and 0.6.\<close>

definition spec_severity :: "real \<Rightarrow> real \<Rightarrow> string" where
  "spec_severity vol_mm3 prob =
     (if vol_mm3 > 500 \<and> prob > 0.75 then ''Alta''
      else if vol_mm3 > 200 \<or> prob > 0.6 then ''Media''
      else ''Baja'')"

text \<open>The body of the loop over \<^verbatim>\<open>stats.GetLabels()\<close>: the entry appended for one label.\<close>

definition make_lesion :: "promotion \<Rightarrow> volume \<Rightarrow> label_image \<Rightarrow> shape_stats \<Rightarrow> nat \<Rightarrow> lesion" where
  "make_lesion pr prob cc stats label =
     (let vol_mm3 = GetPhysicalSize stats label;
          max_diameter = max_diameter_of stats label vol_mm3;
          c = GetCentroid stats label;
          mean_probability = mean_probability_of prob cc label
      in \<lparr> lesion_id = int label, volume_mm3 = vol_mm3, max_diameter_mm = max_diameter,
           centroid = c, probability = mean_probability,
           severity = classify_severity pr vol_mm3 mean_probability \<rparr>)"

text \<open>\<^verbatim>\<open>list.sort(key=..., reverse=True)\<close>: CPython reverses the list, sorts it with a
  stable ascending sort, and reverses the outcome, which keeps elements of equal key in
  their original order.\<close>

definition sort_reverse :: "('a \<Rightarrow> real) \<Rightarrow> 'a list \<Rightarrow> 'a list" where
  "sort_reverse key xs = rev (sort_key key (rev xs))"

text \<open>\<^verbatim>\<open>sum(...)\<close> of Python: left to right from 0.\<close>

definition py_sum :: "real list \<Rightarrow> real" where
  "py_sum xs = foldl (+) 0 xs"

definition process_results ::
  "promotion \<Rightarrow> string \<Rightarrow> volume \<Rightarrow> label_image \<Rightarrow> shape_stats \<Rightarrow> results" where
  "process_results pr now lesion_probability connected_components stats =
     (let lesion_mask = threshold_mask MODEL_THRESHOLD lesion_probability;
          ls = map (make_lesion pr lesion_probability connected_components stats) (GetLabels stats);
          ls = sort_reverse volume_mm3 ls
      in \<lparr> segmentation = lesion_mask,
           lesions = ls,
           num_lesions = length ls,
           has_significant_lesion = list_ex (\<lambda>l. severity l = ''Alta'') ls,
           total_lesion_volume = py_sum (map volume_mm3 ls),
           prediction_date = now \<rparr>)"

subsection \<open>Example inputs\<close>

text \<open>A probability volume of one slice with two rows, its label image, and two
  statistics filters (the second with two labels of equal physical size).\<close>

definition ex_prob :: volume where
  "ex_prob = [[[0.9, 0.7, 0.5], [0.3, 0.3, 0.1]]]"

definition ex_cc :: label_image where
  "ex_cc = [[[1, 1, 0], [2, 2, 0]]]"

definition ex_stats :: shape_stats where
  "ex_stats = \<lparr> GetLabels = [1, 2], GetPhysicalSize = (\<lambda>l. if l = 1 then 600 else 50),
      GetPrincipalAxes = None, GetCentroid = (\<lambda>l. [0, 0, 0]) \<rparr>"

text \<open>A volume of one voxel whose probability is the float32 nearest to 0.6, in a lesion
  of 50 cubic millimetres.\<close>

definition ex_prob_edge :: volume where
  "ex_prob_edge = [[[5033165 / 8388608]]]"

definition ex_cc_edge :: label_image where
  "ex_cc_edge = [[[1]]]"

definition ex_stats_edge :: shape_stats where
  "ex_stats_edge = \<lparr> GetLabels = [1], GetPhysicalSize = (\<lambda>l. 50),
      GetPrincipalAxes = None, GetCentroid = (\<lambda>l. [0, 0, 0]) \<rparr>"

definition ex_stats_tie :: shape_stats where
  "ex_stats_tie = \<lparr> GetLabels = [1, 2, 3], GetPhysicalSize = (\<lambda>l. if l = 2 then 600 else 50),
      GetPrincipalAxes = None, GetCentroid = (\<lambda>l. [0, 0, 0]) \<rparr>"

section \<open>Python values, paths and strings\<close>

text \<open>
  Dictionaries are association lists in insertion order. The file dictionaries of a case
  are objects shared between the case and every copy of it, so they live on a heap and the
  files list of a case holds references to them; the other values are used through one
  name only and are held inline. Paths follow \<^verbatim>\<open>posixpath\<close>.
\<close>

datatype pyval =
    PNone | PBool bool | PInt int | PFloat real | PStr string
  | PTuple "pyval list" | PList "pyval list" | PDict "(string \<times> pyval) list"
  | PArray | PRef nat

datatype error = ValueError | TypeError | KeyError | AttributeError | JSONDecodeError | OSError

type_synonym pydict = "(string \<times> pyval) list"

text \<open>\<^verbatim>\<open>str.lower\<close> on text of ASCII characters. On other text Python follows the
  Unicode tables, so the function is a field of the environment below; strings are the
  UTF-8 bytes of the Python text, on which searching for an ASCII substring and splitting
  at \<open>/\<close> agree with Python's.\<close>

definition ascii_lower_char :: "char \<Rightarrow> char" where
  "ascii_lower_char c =
     (case map_of (zip ''ABCDEFGHIJKLMNOPQRSTUVWXYZ'' ''abcdefghijklmnopqrstuvwxyz'') c of
        Some d \<Rightarrow> d | None \<Rightarrow> c)"

definition ascii_lower :: "string \<Rightarrow> string" where
  "ascii_lower s = map ascii_lower_char s"

fun str_contains :: "string \<Rightarrow> string \<Rightarrow> bool" where
  "str_contains sub [] = (sub = [])"
| "str_contains sub (c # cs) = (prefix sub (c # cs) \<or> str_contains sub cs)"

definition rfind :: "char \<Rightarrow> string \<Rightarrow> int" where
  "rfind c p = (if c \<in> set p then int (length p) - 1 - int (length (takeWhile (\<lambda>x. x \<noteq> c) (rev p))) else - 1)"

definition basename :: "string \<Rightarrow> string" where
  "basename p = drop (nat (rfind (CHR ''/'') p + 1)) p"

definition dirname :: "string \<Rightarrow> string" where
  "dirname p =
     (let head = take (nat (rfind (CHR ''/'') p + 1)) p
      in if head \<noteq> [] \<and> head \<noteq> replicate (length head) (CHR ''/'')
         then rev (dropWhile (\<lambda>x. x = CHR ''/'') (rev head)) else head)"

definition splitext :: "string \<Rightarrow> string \<times> string" where
  "splitext p =
     (let sepIndex = rfind (CHR ''/'') p; dotIndex = rfind (CHR ''.'') p
      in if dotIndex > sepIndex \<and>
            list_ex (\<lambda>ch. ch \<noteq> CHR ''.'') (take (nat (dotIndex - (sepIndex + 1))) (drop (nat (sepIndex + 1)) p))
         then (take (nat dotIndex) p, drop (nat dotIndex) p)
         else (p, []))"


subsection \<open>Python values\<close>

fun truthy :: "pyval \<Rightarrow> bool" where
  "truthy PNone = False"
| "truthy (PBool b) = b"
| "truthy (PInt i) = (i \<noteq> 0)"
| "truthy (PFloat x) = (x \<noteq> 0)"
| "truthy (PStr s) = (s \<noteq> [])"
| "truthy (PTuple xs) = (xs \<noteq> [])"
| "truthy (PList xs) = (xs \<noteq> [])"
| "truthy (PDict d) = (d \<noteq> [])"
| "truthy PArray = True"
| "truthy (PRef a) = True"

fun py_contains :: "string \<Rightarrow> pyval \<Rightarrow> error + bool" where
  "py_contains k (PDict d) = Inr (k \<in> fst ` set d)"
| "py_contains k (PList xs) = Inr (PStr k \<in> set xs)"
| "py_contains k (PTuple xs) = Inr (PStr k \<in> set xs)"
| "py_contains k (PStr s) = Inr (str_contains k s)"
| "py_contains k v = Inl TypeError"

fun getitem :: "pyval \<Rightarrow> string \<Rightarrow> error + pyval" where
  "getitem (PDict d) k = (case map_of d k of None \<Rightarrow> Inl KeyError | Some v \<Rightarrow> Inr v)"
| "getitem v k = Inl TypeError"

fun setitem :: "pyval \<Rightarrow> string \<Rightarrow> pyval \<Rightarrow> error + pyval" where
  "setitem (PDict d) k v = Inr (PDict (AList.update k v d))"
| "setitem c k v = Inl TypeError"

fun json_value :: "pyval \<Rightarrow> pyval option" where
  "json_value PNone = Some PNone"
| "json_value (PBool b) = Some (PBool b)"
| "json_value (PInt i) = Some (PInt i)"
| "json_value (PFloat x) = Some (PFloat x)"
| "json_value (PStr s) = Some (PStr s)"
| "json_value (PTuple xs) = map_option PList (those (map json_value xs))"
| "json_value (PList xs) = map_option PList (those (map json_value xs))"
| "json_value (PDict d) =
     map_option PDict (those (map (\<lambda>kv. map_option (Pair (fst kv)) (json_value (snd kv))) d))"
| "json_value PArray = None"
| "json_value (PRef a) = None"

text \<open>What a path holds on disk, as \<^verbatim>\<open>json.load\<close> sees it: no file, text that is not
  JSON (an empty or truncated file), or JSON text that loads as the given value.
  \<open>json_value\<close> above is the value that the text written by \<^verbatim>\<open>json.dump\<close> loads as
  (tuples come back as lists), or \<open>None\<close> when \<^verbatim>\<open>json.dump\<close> raises TypeError
  (a numpy array is not serialisable).\<close>

datatype file_content = NoFile | Garbage | JsonText pyval

subsection \<open>Image loader (image\_loader.py)\<close>

text \<open>The environment of the case manager: the file system and the imaging libraries
  (for each backend the array and metadata it reads from a path, \<open>None\<close> when the
  library is missing or raises; \<open>basic_info\<close> is the size and date metadata, \<open>None\<close>
  when the file system call raises), \<^verbatim>\<open>str.lower\<close>, the clock (the stamp of the case id and the ISO
  date), whether a path can be opened for writing, and the default path
  \<^verbatim>\<open>os.path.join(TEMP_DIR, f"{id}.json")\<close> of a case id.\<close>

record env =
  exists_file :: "string \<Rightarrow> bool"
  sitk_read :: "string \<Rightarrow> (pyval \<times> pydict) option"
  nib_read :: "string \<Rightarrow> (pyval \<times> pydict) option"
  vtk_read :: "string \<Rightarrow> (pyval \<times> pydict) option"
  basic_info :: "string \<Rightarrow> pydict option"
  stamp_now :: string
  iso_now :: string
  writable :: "string \<Rightarrow> bool"
  default_path :: "pyval \<Rightarrow> string"
  str_lower :: "string \<Rightarrow> string"

definition loaded :: "pydict \<Rightarrow> string \<Rightarrow> pyval \<Rightarrow> pydict \<Rightarrow> pydict" where
  "loaded result backend arr md =
     AList.update ''metadata'' (PDict md)
       (AList.update ''array'' arr
          (AList.update ''loaded_with'' (PStr backend) result))"

definition load_medical_image :: "env \<Rightarrow> string \<Rightarrow> error + pydict option" where
  "load_medical_image e file_path =
     (if \<not> exists_file e file_path then Inr None
      else
        let ext = str_lower e (snd (splitext file_path));
            ext = (if ext = ''.gz''
                   then str_lower e (snd (splitext (fst (splitext file_path)))) @ ext else ext);
            result = [(''path'', PStr file_path), (''format'', PStr ext),
                      (''loaded_with'', PNone), (''array'', PNone), (''metadata'', PDict [])]
        in case sitk_read e file_path of
             Some (arr, md) \<Rightarrow> Inr (Some (loaded result ''SimpleITK'' arr md))
           | None \<Rightarrow>
        (case (if ext = ''.nii'' \<or> ext = ''.nii.gz'' then nib_read e file_path else None) of
             Some (arr, md) \<Rightarrow> Inr (Some (loaded result ''nibabel'' arr md))
           | None \<Rightarrow>
        (case vtk_read e file_path of
             Some (arr, md) \<Rightarrow> Inr (Some (loaded result ''VTK'' arr md))
           | None \<Rightarrow>
        (case basic_info e file_path of
             None \<Rightarrow> Inl OSError
           | Some md \<Rightarrow>
               Inr (Some (AList.update ''metadata'' (PDict md)
                            (AList.update ''loaded_with'' (PStr ''basic_info'') result)))))))"

subsection \<open>Case manager (case\_manager.py)\<close>

definition sequence_type_of :: "string \<Rightarrow> string" where
  "sequence_type_of file_name =
     (if str_contains ''t2'' file_name \<or> str_contains ''t2w'' file_name then ''t2w''
      else if str_contains ''adc'' file_name then ''adc''
      else if str_contains ''dwi'' file_name \<or> str_contains ''hbv'' file_name then ''dwi''
      else if str_contains ''cor'' file_name then ''cor''
      else if str_contains ''sag'' file_name then ''sag''
      else ''unknown'')"

definition process_file :: "env \<Rightarrow> string \<Rightarrow> error + pydict" where
  "process_file e file_path =
     (case load_medical_image e file_path of
        Inl err \<Rightarrow> Inl err
      | Inr None \<Rightarrow> Inl ValueError
      | Inr (Some file_info) \<Rightarrow>
          if file_info = [] then Inl ValueError
          else
            let file_name = str_lower e (basename file_path)
            in Inr (AList.update ''sequence_type'' (PStr (sequence_type_of file_name)) file_info))"

definition generate_case_name :: "string list \<Rightarrow> string" where
  "generate_case_name file_paths =
     (case file_paths of
        [] \<Rightarrow> ''Caso sin nombre''
      | first_file # _ \<Rightarrow>
          let dir_name = basename (dirname first_file)
          in if dir_name \<noteq> [] then ''Caso '' @ dir_name
             else ''Caso '' @ fst (splitext (basename first_file)))"

text \<open>The manager: the case list, the current index, the heap of file dictionaries
  (a reference \<open>PRef a\<close> is the index \<open>a\<close> into it) and the files on disk. Signals
  emitted to the user interface are not modelled.\<close>

record manager =
  cases :: "pyval list"
  current_case_index :: int
  heap :: "pydict list"
  disk :: "string \<Rightarrow> file_content"

definition init_manager :: "(string \<Rightarrow> file_content) \<Rightarrow> manager" where
  "init_manager d = \<lparr> cases = [], current_case_index = - 1, heap = [], disk = d \<rparr>"

definition no_current :: "manager \<Rightarrow> bool" where
  "no_current st \<longleftrightarrow>
     current_case_index st < 0 \<or> current_case_index st \<ge> int (length (cases st))"

definition current :: "manager \<Rightarrow> pyval" where
  "current st = cases st ! nat (current_case_index st)"

definition put_current :: "manager \<Rightarrow> pyval \<Rightarrow> manager" where
  "put_current st c = st\<lparr>cases := (cases st)[nat (current_case_index st) := c]\<rparr>"

fun process_files :: "env \<Rightarrow> pydict list \<Rightarrow> string list \<Rightarrow> pyval list \<times> pydict list" where
  "process_files e h [] = ([], h)"
| "process_files e h (file_path # rest) =
     (case process_file e file_path of
        Inr file_info \<Rightarrow>
          (let (refs, h') = process_files e (h @ [file_info]) rest
           in (PRef (length h) # refs, h'))
      | Inl err \<Rightarrow> process_files e h rest)"

definition first_matching :: "env \<Rightarrow> string list \<Rightarrow> pydict \<Rightarrow> pyval" where
  "first_matching e pats md =
     (case find (\<lambda>kv. list_ex (\<lambda>p. str_contains p (str_lower e (fst kv))) pats) md of
        Some kv \<Rightarrow> snd kv | None \<Rightarrow> PNone)"

definition set_case_metadata :: "string \<Rightarrow> pyval \<Rightarrow> pydict \<Rightarrow> pydict" where
  "set_case_metadata k v c =
     (case map_of c ''metadata'' of
        Some (PDict m) \<Rightarrow> AList.update ''metadata'' (PDict (AList.update k v m)) c
      | _ \<Rightarrow> c)"

definition extract_case_metadata :: "env \<Rightarrow> pydict list \<Rightarrow> pydict \<Rightarrow> pydict" where
  "extract_case_metadata e h c =
     (case map_of c ''files'' of
        Some (PList (PRef a # rest)) \<Rightarrow>
          (case map_of (h ! a) ''metadata'' of
             Some (PDict md) \<Rightarrow>
               let patient_id = first_matching e [''patientid'', ''patient id''] md;
                   c = (if truthy patient_id then set_case_metadata ''patient_id'' patient_id c else c);
                   study_date = first_matching e [''study date'', ''studydate''] md;
                   c = (if truthy study_date then set_case_metadata ''study_date'' study_date c else c)
               in c
           | _ \<Rightarrow> c)
      | _ \<Rightarrow> c)"

definition load_case :: "env \<Rightarrow> manager \<Rightarrow> string list \<Rightarrow> error + (pyval \<times> manager)" where
  "load_case e st file_paths =
     (if file_paths = [] then Inl ValueError
      else
        let name = generate_case_name file_paths;
            (refs, h) = process_files e (heap st) file_paths;
            c = [(''id'', PStr (''case_'' @ stamp_now e)), (''name'', PStr name),
                 (''files'', PList refs), (''metadata'', PDict []),
                 (''created_date'', PStr (iso_now e)), (''modified_date'', PStr (iso_now e)),
                 (''has_changes'', PBool False)]
        in if refs = [] then Inl ValueError
           else
             let c = PDict (extract_case_metadata e h c);
                 cs = cases st @ [c]
             in Inr (c, st\<lparr>cases := cs, current_case_index := int (length cs) - 1, heap := h\<rparr>))"

definition get_current_case :: "manager \<Rightarrow> pyval option" where
  "get_current_case st = (if no_current st then None else Some (current st))"

definition close_current_case :: "manager \<Rightarrow> manager" where
  "close_current_case st =
     (if no_current st then st
      else
        let i = nat (current_case_index st);
            cs = take i (cases st) @ drop (Suc i) (cases st)
        in st\<lparr>cases := cs,
               current_case_index :=
                 (if length cs = 0 then - 1
                  else if current_case_index st \<ge> int (length cs) then int (length cs) - 1
                  else current_case_index st)\<rparr>)"

definition close_all_cases :: "manager \<Rightarrow> manager" where
  "close_all_cases st = st\<lparr>cases := [], current_case_index := - 1\<rparr>"


text \<open>The two assignments that mark the current case as modified.\<close>

definition mark_modified :: "env \<Rightarrow> pyval \<Rightarrow> error + pyval" where
  "mark_modified e c =
     (case setitem c ''modified_date'' (PStr (iso_now e)) of
        Inl err \<Rightarrow> Inl err
      | Inr c \<Rightarrow> setitem c ''has_changes'' (PBool True))"

definition add_file_to_current_case :: "env \<Rightarrow> manager \<Rightarrow> string \<Rightarrow> error + (bool \<times> manager)" where
  "add_file_to_current_case e st file_path =
     (if no_current st then Inl ValueError
      else
        let current_case = current st
        in case process_file e file_path of
             Inl err \<Rightarrow> Inl ValueError
           | Inr file_info \<Rightarrow>
        (case getitem current_case ''files'' of
             Inr (PList fs) \<Rightarrow>
               (case setitem current_case ''files'' (PList (fs @ [PRef (length (heap st))])) of
                  Inl err \<Rightarrow> Inl ValueError
                | Inr c \<Rightarrow>
               (case mark_modified e c of
                  Inl err \<Rightarrow> Inl ValueError
                | Inr c \<Rightarrow> Inr (True, (put_current st c)\<lparr>heap := heap st @ [file_info]\<rparr>)))
           | _ \<Rightarrow> Inl ValueError))"

definition update_current_case_metadata :: "env \<Rightarrow> manager \<Rightarrow> pydict \<Rightarrow> error + (bool \<times> manager)" where
  "update_current_case_metadata e st metadata =
     (if no_current st then Inr (False, st)
      else
        let current_case = current st
        in case getitem current_case ''metadata'' of
             Inl err \<Rightarrow> Inl err
           | Inr (PDict m) \<Rightarrow>
               (case setitem current_case ''metadata''
                       (PDict (foldl (\<lambda>m kv. AList.update (fst kv) (snd kv) m) m metadata)) of
                  Inl err \<Rightarrow> Inl err
                | Inr c \<Rightarrow>
               (case mark_modified e c of
                  Inl err \<Rightarrow> Inl err
                | Inr c \<Rightarrow> Inr (True, put_current st c)))
           | Inr other \<Rightarrow> Inl AttributeError)"

definition set_current_case_prediction_results :: "env \<Rightarrow> manager \<Rightarrow> pyval \<Rightarrow> error + (bool \<times> manager)" where
  "set_current_case_prediction_results e st res =
     (if no_current st then Inr (False, st)
      else
        case setitem (current st) ''prediction_results'' res of
          Inl err \<Rightarrow> Inl err
        | Inr c \<Rightarrow>
       (case mark_modified e c of
          Inl err \<Rightarrow> Inl err
        | Inr c \<Rightarrow> Inr (True, put_current st c)))"

definition get_current_case_prediction_results :: "manager \<Rightarrow> error + pyval" where
  "get_current_case_prediction_results st =
     (if no_current st then Inr PNone
      else case current st of
             PDict d \<Rightarrow> (case map_of d ''prediction_results'' of None \<Rightarrow> Inr PNone | Some v \<Rightarrow> Inr v)
           | _ \<Rightarrow> Inl AttributeError)"

text \<open>The test \<^verbatim>\<open>file_index < 0 or file_index >= len(current_case['files'])\<close> reads
  the files only when the index is not negative.\<close>

definition remove_file_from_current_case :: "env \<Rightarrow> manager \<Rightarrow> int \<Rightarrow> error + (bool \<times> manager)" where
  "remove_file_from_current_case e st file_index =
     (if no_current st then Inr (False, st)
      else if file_index < 0 then Inr (False, st)
      else
        let current_case = current st
        in case getitem current_case ''files'' of
             Inl err \<Rightarrow> Inl err
           | Inr (PList fs) \<Rightarrow>
               if file_index \<ge> int (length fs) then Inr (False, st)
               else
                 (case setitem current_case ''files''
                         (PList (take (nat file_index) fs @ drop (Suc (nat file_index)) fs)) of
                    Inl err \<Rightarrow> Inl err
                  | Inr c \<Rightarrow>
                 (case mark_modified e c of
                    Inl err \<Rightarrow> Inl err
                  | Inr c \<Rightarrow> Inr (True, put_current st c)))
           | Inr (PTuple fs) \<Rightarrow>
               if file_index \<ge> int (length fs) then Inr (False, st) else Inl TypeError
           | Inr (PStr fs) \<Rightarrow>
               if file_index \<ge> int (length fs) then Inr (False, st) else Inl TypeError
           | Inr (PDict fs) \<Rightarrow>
               if file_index \<ge> int (length fs) then Inr (False, st) else Inl KeyError
           | Inr other \<Rightarrow> Inl TypeError)"

text \<open>The values a \<^verbatim>\<open>for\<close> loop visits.\<close>

fun items_of :: "pyval \<Rightarrow> error + pyval list" where
  "items_of (PList xs) = Inr xs"
| "items_of (PTuple xs) = Inr xs"
| "items_of (PStr s) = Inr (map (\<lambda>c. PStr [c]) s)"
| "items_of (PDict d) = Inr (map (\<lambda>kv. PStr (fst kv)) d)"
| "items_of v = Inl TypeError"

text \<open>The loop of \<^verbatim>\<open>save_current_case\<close> over \<^verbatim>\<open>save_data['files']\<close>. It returns
  the heap reached, also when an item raises. A dictionary of a files list is always a
  reference (the loaders allocate every one), so the branch of an inline dictionary that
  holds the key is not reached; it is given as an error.\<close>

fun strip_arrays :: "pydict list \<Rightarrow> pyval list \<Rightarrow> bool \<times> pydict list" where
  "strip_arrays h [] = (True, h)"
| "strip_arrays h (PRef a # rest) =
     (if ''array'' \<in> fst ` set (h ! a)
      then strip_arrays (h[a := AList.delete ''array'' (h ! a)]) rest
      else strip_arrays h rest)"
| "strip_arrays h (file_info # rest) =
     (case py_contains ''array'' file_info of
        Inr False \<Rightarrow> strip_arrays h rest
      | _ \<Rightarrow> (False, h))"

definition deref :: "pydict list \<Rightarrow> pyval \<Rightarrow> pyval" where
  "deref h v = (case v of PRef a \<Rightarrow> PDict (h ! a) | _ \<Rightarrow> v)"

text \<open>The object graph that \<^verbatim>\<open>json.dump\<close> walks from the case: the file
  dictionaries are read through their references.\<close>

definition snapshot :: "pydict list \<Rightarrow> pyval \<Rightarrow> pyval" where
  "snapshot h c =
     (case c of
        PDict d \<Rightarrow>
          PDict (map (\<lambda>kv. if fst kv = ''files''
                           then (fst kv, (case snd kv of
                                            PList fs \<Rightarrow> PList (map (deref h) fs)
                                          | PTuple fs \<Rightarrow> PTuple (map (deref h) fs)
                                          | v \<Rightarrow> v))
                           else kv) d)
      | _ \<Rightarrow> c)"

definition write_disk :: "manager \<Rightarrow> string \<Rightarrow> file_content \<Rightarrow> manager" where
  "write_disk st p fc = st\<lparr>disk := (disk st)(p := fc)\<rparr>"

definition save_path :: "env \<Rightarrow> pyval \<Rightarrow> string option \<Rightarrow> error + string" where
  "save_path e current_case file_path =
     (if file_path = None \<or> file_path = Some []
      then map_sum id (default_path e) (getitem current_case ''id'')
      else Inr (the file_path))"

text \<open>The statements of \<^verbatim>\<open>save_current_case\<close> inside \<^verbatim>\<open>with open(...)\<close> and after
  it. Opening the file for writing empties it, so a failure before the end of
  \<^verbatim>\<open>json.dump\<close> leaves text that is not JSON.\<close>

definition dump_case :: "manager \<Rightarrow> string \<Rightarrow> pyval \<Rightarrow> bool \<times> manager" where
  "dump_case st p current_case =
     (let save_data = current_case
      in case getitem save_data ''files'' of
           Inl err \<Rightarrow> (False, write_disk st p Garbage)
         | Inr fs \<Rightarrow>
      (case items_of fs of
           Inl err \<Rightarrow> (False, write_disk st p Garbage)
         | Inr file_infos \<Rightarrow>
      (case strip_arrays (heap st) file_infos of
           (False, h) \<Rightarrow> (False, write_disk (st\<lparr>heap := h\<rparr>) p Garbage)
         | (True, h) \<Rightarrow>
      (case json_value (snapshot h save_data) of
           None \<Rightarrow> (False, write_disk (st\<lparr>heap := h\<rparr>) p Garbage)
         | Some text \<Rightarrow>
      (case setitem current_case ''has_changes'' (PBool False) of
           Inl err \<Rightarrow> (False, write_disk (st\<lparr>heap := h\<rparr>) p (JsonText text))
         | Inr current_case \<Rightarrow>
             (True, write_disk (put_current (st\<lparr>heap := h\<rparr>) current_case) p (JsonText text)))))))"

definition save_current_case :: "env \<Rightarrow> manager \<Rightarrow> string option \<Rightarrow> error + (bool \<times> manager)" where
  "save_current_case e st file_path =
     (if no_current st then Inr (False, st)
      else
        case save_path e (current st) file_path of
          Inl err \<Rightarrow> Inl err
        | Inr p \<Rightarrow>
       (case setitem (current st) ''modified_date'' (PStr (iso_now e)) of
          Inl err \<Rightarrow> Inr (False, st)
        | Inr current_case \<Rightarrow>
            if \<not> writable e p then Inr (False, put_current st current_case)
            else Inr (dump_case (put_current st current_case) p current_case)))"

fun has_all_keys :: "string list \<Rightarrow> pyval \<Rightarrow> error + bool" where
  "has_all_keys [] c = Inr True"
| "has_all_keys (k # ks) c =
     (case py_contains k c of
        Inl err \<Rightarrow> Inl err
      | Inr False \<Rightarrow> Inr False
      | Inr True \<Rightarrow> has_all_keys ks c)"

text \<open>\<^verbatim>\<open>json.load\<close> builds fresh objects: the dictionaries of the files list are
  allocated on the heap.\<close>

fun intern_files :: "pydict list \<Rightarrow> pyval list \<Rightarrow> pyval list \<times> pydict list" where
  "intern_files h [] = ([], h)"
| "intern_files h (PDict f # rest) =
     (let (fs, h') = intern_files (h @ [f]) rest in (PRef (length h) # fs, h'))"
| "intern_files h (v # rest) =
     (let (fs, h') = intern_files h rest in (v # fs, h'))"

definition intern_case :: "pydict list \<Rightarrow> pyval \<Rightarrow> pyval \<times> pydict list" where
  "intern_case h c =
     (case c of
        PDict d \<Rightarrow>
          (case map_of d ''files'' of
             Some (PList fs) \<Rightarrow>
               (let (fs', h') = intern_files h fs
                in (PDict (AList.update ''files'' (PList fs') d), h'))
           | _ \<Rightarrow> (c, h))
      | _ \<Rightarrow> (c, h))"

text \<open>The outcome and the manager after the call. \<^verbatim>\<open>case_loaded\<close> is a signal of a
  \<^verbatim>\<open>dict\<close>: for a loaded value that is not a dictionary \<^verbatim>\<open>emit\<close> raises TypeError,
  which the handler turns into ValueError after the value has been appended and made
  current.\<close>

definition load_case_from_file :: "manager \<Rightarrow> string \<Rightarrow> (error + pyval) \<times> manager" where
  "load_case_from_file st file_path =
     (case disk st file_path of
        NoFile \<Rightarrow> (Inl ValueError, st)
      | Garbage \<Rightarrow> (Inl ValueError, st)
      | JsonText v \<Rightarrow>
          (case has_all_keys [''id'', ''name'', ''files'', ''metadata''] v of
             Inr True \<Rightarrow>
               (let (c, h) = intern_case (heap st) v;
                    cs = cases st @ [c];
                    st' = st\<lparr>cases := cs, current_case_index := int (length cs) - 1, heap := h\<rparr>
                in case c of
                     PDict d \<Rightarrow> (Inr c, st')
                   | _ \<Rightarrow> (Inl ValueError, st'))
           | _ \<Rightarrow> (Inl ValueError, st)))"

subsection \<open>The results dictionary of the prediction worker\<close>

text \<open>The dictionary literals of \<^verbatim>\<open>_process_results\<close> (lines 340 to 347 and 353 to 360):
  the result record as the Python value that is emitted and attached to a case. The
  segmentation is the numpy array \<^verbatim>\<open>lesion_mask\<close>.\<close>

definition lesion_dict :: "lesion \<Rightarrow> pyval" where
  "lesion_dict l = PDict
     [(''id'', PInt (lesion_id l)), (''volume_mm3'', PFloat (volume_mm3 l)),
      (''max_diameter_mm'', PFloat (max_diameter_mm l)),
      (''centroid'', PList (map PFloat (centroid l))),
      (''probability'', PFloat (probability l)), (''severity'', PStr (severity l))]"

definition results_dict :: "results \<Rightarrow> pyval" where
  "results_dict r = PDict
     [(''segmentation'', PArray), (''lesions'', PList (map lesion_dict (lesions r))),
      (''num_lesions'', PInt (int (num_lesions r))),
      (''has_significant_lesion'', PBool (has_significant_lesion r)),
      (''total_lesion_volume'', PFloat (total_lesion_volume r)),
      (''prediction_date'', PStr (prediction_date r))]"

subsection \<open>The index invariant and runs of operations\<close>

definition index_ok :: "manager \<Rightarrow> bool" where
  "index_ok st \<longleftrightarrow>
     current_case_index st = - 1
     \<or> (0 \<le> current_case_index st \<and> current_case_index st < int (length (cases st)))"

datatype operation =
    LoadCase "string list" | CloseCurrent | CloseAll | Save "string option"
  | LoadFromFile string | AddFile string | UpdateMetadata pydict | SetResults pyval
  | RemoveFile int

text \<open>The manager after one call. A call that raises leaves the manager as it was, except
  \<^verbatim>\<open>load_case_from_file\<close>, whose own result carries the manager it leaves.\<close>

fun after :: "env \<Rightarrow> manager \<Rightarrow> operation \<Rightarrow> manager" where
  "after e st (LoadCase ps) = (case load_case e st ps of Inr (c, st') \<Rightarrow> st' | Inl err \<Rightarrow> st)"
| "after e st CloseCurrent = close_current_case st"
| "after e st CloseAll = close_all_cases st"
| "after e st (Save p) = (case save_current_case e st p of Inr (ok, st') \<Rightarrow> st' | Inl err \<Rightarrow> st)"
| "after e st (LoadFromFile p) = snd (load_case_from_file st p)"
| "after e st (AddFile p) =
     (case add_file_to_current_case e st p of Inr (ok, st') \<Rightarrow> st' | Inl err \<Rightarrow> st)"
| "after e st (UpdateMetadata m) =
     (case update_current_case_metadata e st m of Inr (ok, st') \<Rightarrow> st' | Inl err \<Rightarrow> st)"
| "after e st (SetResults r) =
     (case set_current_case_prediction_results e st r of Inr (ok, st') \<Rightarrow> st' | Inl err \<Rightarrow> st)"
| "after e st (RemoveFile i) =
     (case remove_file_from_current_case e st i of Inr (ok, st') \<Rightarrow> st' | Inl err \<Rightarrow> st)"

section \<open>Prediction controller (prediction\_controller.py, PredictionController)\<close>

text \<open>
  A worker is a thread object; \<^verbatim>\<open>isRunning()\<close> is true from the return of
  \<^verbatim>\<open>start()\<close> until its \<^verbatim>\<open>run\<close> has ended. The controller state lists the running
  flag of every worker created so far, and \<open>worker\<close> is the index of the one the controller
  holds. The end of a worker's run is an event of the environment.
\<close>

record pred_env =
  TORCH_AVAILABLE :: bool
  MONAI_AVAILABLE :: bool
  path_exists :: "string \<Rightarrow> bool"
  sample_model_path :: string

record controller =
  model_path :: string
  worker :: "nat option"
  threads :: "bool list"

definition init_controller :: "string \<Rightarrow> controller" where
  "init_controller p = \<lparr> model_path = p, worker = None, threads = [] \<rparr>"

definition is_running :: "controller \<Rightarrow> bool" where
  "is_running ctl = (case worker ctl of None \<Rightarrow> False | Some w \<Rightarrow> threads ctl ! w)"

text \<open>The last four statements of \<^verbatim>\<open>start_prediction\<close>: a new worker is created, held
  and started.\<close>

definition start_worker :: "controller \<Rightarrow> controller" where
  "start_worker ctl =
     ctl\<lparr>worker := Some (length (threads ctl)), threads := threads ctl @ [True]\<rparr>"

text \<open>\<^verbatim>\<open>not case_data or 'files' not in case_data\<close>.\<close>

definition no_case :: "pyval \<Rightarrow> error + bool" where
  "no_case case_data =
     (if \<not> truthy case_data then Inr True
      else map_sum id Not (py_contains ''files'' case_data))"

text \<open>The outcome is the error raised, if any, and the controller after the call.\<close>

definition start_prediction :: "pred_env \<Rightarrow> controller \<Rightarrow> pyval \<Rightarrow> error option \<times> controller" where
  "start_prediction pe ctl case_data =
     (if \<not> TORCH_AVAILABLE pe \<or> \<not> MONAI_AVAILABLE pe then (Some ValueError, ctl)
      else
        case no_case case_data of
          Inl err \<Rightarrow> (Some err, ctl)
        | Inr True \<Rightarrow> (Some ValueError, ctl)
        | Inr False \<Rightarrow>
            if is_running ctl then (Some ValueError, ctl)
            else if \<not> path_exists pe (model_path ctl)
            then (let ctl = ctl\<lparr>model_path := sample_model_path pe\<rparr>
                  in if \<not> path_exists pe (model_path ctl) then (Some ValueError, ctl)
                     else (None, start_worker ctl))
            else (None, start_worker ctl))"

definition worker_finished :: "nat \<Rightarrow> controller \<Rightarrow> controller" where
  "worker_finished w ctl = ctl\<lparr>threads := (threads ctl)[w := False]\<rparr>"

datatype event = Start pyval | Finished nat

fun ctl_after :: "pred_env \<Rightarrow> controller \<Rightarrow> event \<Rightarrow> controller" where
  "ctl_after pe ctl (Start case_data) = snd (start_prediction pe ctl case_data)"
| "ctl_after pe ctl (Finished w) = worker_finished w ctl"

definition running_workers :: "controller \<Rightarrow> nat" where
  "running_workers ctl = length (filter (\<lambda>running. running) (threads ctl))"

text \<open>Every running worker is the one the controller holds.\<close>

definition ctl_ok :: "controller \<Rightarrow> bool" where
  "ctl_ok ctl \<longleftrightarrow>
     (\<forall>w < length (threads ctl). threads ctl ! w \<longrightarrow> worker ctl = Some w)"

definition ex_pred_env :: pred_env where
  "ex_pred_env = \<lparr> TORCH_AVAILABLE = True, MONAI_AVAILABLE = True,
                   path_exists = (\<lambda>p. True), sample_model_path = ''models/sample_model.pth'' \<rparr>"

subsection \<open>Example environment and cases\<close>

definition ex_env :: env where
  "ex_env = \<lparr> exists_file = (\<lambda>p. p \<noteq> ''/data/p1/missing.nii''),
      sitk_read = (\<lambda>p. Some (PArray, [(''dimensions'', PTuple [PInt 2, PInt 2, PInt 1]), (''0010|0020 PatientID'', PStr ''P-17'')])),
      nib_read = (\<lambda>p. None), vtk_read = (\<lambda>p. None), basic_info = (\<lambda>p. Some []),
      stamp_now = ''20240101_120000'', iso_now = ''2024-01-01T12:00:00'',
      writable = (\<lambda>p. True), default_path = (\<lambda>v. ''/tmp/case.json''),
      str_lower = ascii_lower \<rparr>"

text \<open>The same environment with no path that can be opened for writing.\<close>

definition ex_env_readonly :: env where
  "ex_env_readonly = ex_env\<lparr>writable := (\<lambda>p. False)\<rparr>"

definition ex_paths :: "string list" where
  "ex_paths = [''/data/p1/missing.nii'', ''/data/p1/T2W.nii.gz'']"

definition ex_file :: pydict where
  "ex_file =
     [(''path'', PStr ''/data/p1/T2W.nii.gz''), (''format'', PStr ''.nii.gz''),
      (''loaded_with'', PStr ''SimpleITK''), (''array'', PArray),
      (''metadata'', PDict [(''dimensions'', PTuple [PInt 2, PInt 2, PInt 1]),
                            (''0010|0020 PatientID'', PStr ''P-17'')]),
      (''sequence_type'', PStr ''t2w'')]"

definition ex_case :: pyval where
  "ex_case = PDict
     [(''id'', PStr ''case_20240101_120000''), (''name'', PStr ''Caso p1''),
      (''files'', PList [PRef 0]), (''metadata'', PDict [(''patient_id'', PStr ''P-17'')]),
      (''created_date'', PStr ''2024-01-01T12:00:00''),
      (''modified_date'', PStr ''2024-01-01T12:00:00''),
      (''has_changes'', PBool False)]"

text \<open>The manager after \<^verbatim>\<open>load_case\<close> of the example paths (lemma \<open>ex_loaded_eq\<close>).\<close>

definition ex_loaded :: manager where
  "ex_loaded = \<lparr> cases = [ex_case], current_case_index = 0, heap = [ex_file],
                 disk = (\<lambda>p. NoFile) \<rparr>"

definition ex_results :: pyval where
  "ex_results = results_dict (process_results Weak ''2024-01-01 12:05:00'' ex_prob ex_cc ex_stats)"

text \<open>The example manager after its case is saved, and after prediction results are
  attached to its case and the case is saved.\<close>

definition ex_saved :: manager where
  "ex_saved = after ex_env ex_loaded (Save None)"

definition ex_predicted :: manager where
  "ex_predicted = after ex_env ex_loaded (SetResults ex_results)"

definition ex_predicted_saved :: manager where
  "ex_predicted_saved = after ex_env ex_predicted (Save None)"

section \<open>Properties of the post-processing\<close>

lemma py_sum_eq_sum_list: "py_sum xs = sum_list xs"
proof -
  have "foldl (+) a xs = a + sum_list xs" for a :: real
    by (induction xs arbitrary: a) simp_all
  then show ?thesis by (simp add: py_sum_def)
qed

lemma lesions_process_results:
  "lesions (process_results pr now prob cc stats) =
     sort_reverse volume_mm3 (map (make_lesion pr prob cc stats) (GetLabels stats))"
  by (simp add: process_results_def Let_def)

lemma severity_make_lesion:
  "severity (make_lesion pr prob cc stats label) =
     classify_severity pr (volume_mm3 (make_lesion pr prob cc stats label))
                       (probability (make_lesion pr prob cc stats label))"
  by (simp add: make_lesion_def Let_def)

lemma set_sort_reverse: "set (sort_reverse key xs) = set xs"
  by (simp add: sort_reverse_def)

lemma classify_severity_agrees:
  assumes "(pr = Legacy \<and> p = float32_of_0_6) \<or> p \<le> float64_of_0_6 \<or> p > float32_of_0_6"
  shows "classify_severity pr v p = spec_severity v p"
proof (cases pr)
  case Legacy
  with assms show ?thesis
    by (auto simp: classify_severity_def spec_severity_def media_threshold_def
        float64_of_0_6_def float32_of_0_6_def)
next
  case Weak
  with assms show ?thesis
    by (auto simp: classify_severity_def spec_severity_def media_threshold_def
        float64_of_0_6_def float32_of_0_6_def)
qed

lemma float32_grid_around_0_6:
  "real_of_int n / 2 ^ 24 \<le> float64_of_0_6 \<or> real_of_int n / 2 ^ 24 \<ge> float32_of_0_6"
proof (cases "n \<le> 10066329")
  case True
  then have "real_of_int n \<le> 10066329" by linarith
  then have "real_of_int n / 2 ^ 24 \<le> 10066329 / 2 ^ 24"
    by (simp add: divide_right_mono)
  also have "(10066329 :: real) / 2 ^ 24 \<le> float64_of_0_6"
    by (simp add: float64_of_0_6_def)
  finally show ?thesis by simp
next
  case False
  then have "real_of_int n \<ge> 10066330" by linarith
  then have "real_of_int n / 2 ^ 24 \<ge> 10066330 / 2 ^ 24"
    by (simp add: divide_right_mono)
  moreover have "(10066330 :: real) / 2 ^ 24 = float32_of_0_6"
    by (simp add: float32_of_0_6_def)
  ultimately show ?thesis by simp
qed

text \<open>
  C1, as the claim states it, fails: under NumPy 2 the lesion of the one-voxel example has
  volume 50 and probability float32(0.6) = 0.60000002384185791015625, which is greater
  than 0.6, and its severity is Baja, where the thresholds of the claim give Media.
\<close>

theorem severity_threshold_counterexample:
  "map volume_mm3 (lesions (process_results Weak [] ex_prob_edge ex_cc_edge ex_stats_edge)) = [50]
   \<and> map probability (lesions (process_results Weak [] ex_prob_edge ex_cc_edge ex_stats_edge))
       = [5033165 / 8388608]
   \<and> (5033165 / 8388608 :: real) > 0.6
   \<and> map severity (lesions (process_results Weak [] ex_prob_edge ex_cc_edge ex_stats_edge))
       = [''Baja'']
   \<and> spec_severity 50 (5033165 / 8388608) = ''Media''"
proof -
  have m: "mean_probability_of ex_prob_edge ex_cc_edge 1 = 5033165 / 8388608"
    by (simp add: mean_probability_of_def ex_prob_edge_def ex_cc_edge_def flat_def)
  have l: "lesions (process_results Weak [] ex_prob_edge ex_cc_edge ex_stats_edge)
      = [make_lesion Weak ex_prob_edge ex_cc_edge ex_stats_edge 1]"
    by (simp add: lesions_process_results sort_reverse_def ex_stats_edge_def)
  have v: "volume_mm3 (make_lesion Weak ex_prob_edge ex_cc_edge ex_stats_edge 1) = 50"
    by (simp add: make_lesion_def Let_def ex_stats_edge_def)
  from m have p: "probability (make_lesion Weak ex_prob_edge ex_cc_edge ex_stats_edge 1) = 5033165 / 8388608"
    by (simp add: make_lesion_def Let_def)
  have c: "classify_severity Weak 50 (5033165 / 8388608) = ''Baja''"
    by (simp add: classify_severity_def media_threshold_def float32_of_0_6_def)
  have "severity (make_lesion Weak ex_prob_edge ex_cc_edge ex_stats_edge 1)
      = classify_severity Weak 50 (5033165 / 8388608)"
    by (simp only: severity_make_lesion v p)
  with c have sv: "severity (make_lesion Weak ex_prob_edge ex_cc_edge ex_stats_edge 1) = ''Baja''"
    by simp
  have sp: "spec_severity 50 (5033165 / 8388608) = ''Media''"
    by (simp add: spec_severity_def)
  from l v p sv sp show ?thesis by simp
qed

text \<open>
  C1, amended. Every lesion of a result has the severity given by the three-tier decision
  on its own volume\_mm3 and probability: Alta when volume > 500 and probability > 0.75,
  otherwise Media when volume > 200 or the probability is greater than the literal 0.6 as
  numpy compares it with the float32 mean (the float32 nearest to 0.6 from NumPy 2 on, the
  double nearest to 0.6 before), otherwise Baja. This is the decision of the claim for
  every probability that is at most the double or greater than the float32, and before
  NumPy 2 also at the float32 itself; no multiple of \<open>2^-24\<close>, so no float32 between 0.5
  and 1, lies strictly between the two. The three examples of the specification give Alta,
  Media and Baja.
\<close>

theorem severity_from_volume_and_float32_probability:
  "(\<forall>l \<in> set (lesions (process_results pr now prob cc stats)).
      severity l = classify_severity pr (volume_mm3 l) (probability l))
   \<and> (\<forall>v p. classify_severity pr v p =
        (if v > 500 \<and> p > 0.75 then ''Alta''
         else if v > 200 \<or> p > media_threshold pr then ''Media'' else ''Baja''))
   \<and> media_threshold Weak = 5033165 / 8388608
   \<and> media_threshold Legacy = 5404319552844595 / 9007199254740992
   \<and> (\<forall>v p. (pr = Legacy \<and> p = float32_of_0_6) \<or> p \<le> float64_of_0_6 \<or> p > float32_of_0_6
        \<longrightarrow> classify_severity pr v p = spec_severity v p)
   \<and> (\<forall>n :: int. real_of_int n / 2 ^ 24 \<le> float64_of_0_6
                 \<or> real_of_int n / 2 ^ 24 \<ge> float32_of_0_6)
   \<and> classify_severity pr 600 0.8 = ''Alta''
   \<and> classify_severity pr 300 0.5 = ''Media''
   \<and> classify_severity pr 50 0.3 = ''Baja''"
proof -
  have one: "severity l = classify_severity pr (volume_mm3 l) (probability l)"
    if "l \<in> set (lesions (process_results pr now prob cc stats))" for l
  proof -
    from that obtain label where "l = make_lesion pr prob cc stats label"
      by (auto simp: lesions_process_results set_sort_reverse)
    then show ?thesis by (simp add: severity_make_lesion)
  qed
  have thr: "media_threshold Weak = 5033165 / 8388608"
    "media_threshold Legacy = 5404319552844595 / 9007199254740992"
    by (simp_all add: media_threshold_def float32_of_0_6_def float64_of_0_6_def)
  have ex: "classify_severity pr 600 0.8 = ''Alta''" "classify_severity pr 300 0.5 = ''Media''"
    "classify_severity pr 50 0.3 = ''Baja''"
    by (cases pr; simp add: classify_severity_def media_threshold_def float32_of_0_6_def
        float64_of_0_6_def)+
  have def: "\<forall>v p. classify_severity pr v p =
        (if v > 500 \<and> p > 0.75 then ''Alta''
         else if v > 200 \<or> p > media_threshold pr then ''Media'' else ''Baja'')"
    by (simp add: classify_severity_def)
  from one thr ex def show ?thesis
    using classify_severity_agrees [of pr] float32_grid_around_0_6
    by blast
qed

theorem severity_from_volume_and_float32_probability_witness:
  "make_lesion Weak ex_prob ex_cc ex_stats 1
     \<in> set (lesions (process_results Weak [] ex_prob ex_cc ex_stats))
   \<and> severity (make_lesion Weak ex_prob ex_cc ex_stats 1) = ''Alta''
   \<and> (0.8 :: real) > float32_of_0_6
   \<and> classify_severity Weak 600 0.8 = spec_severity 600 0.8"
proof -
  let ?l = "make_lesion Weak ex_prob ex_cc ex_stats 1"
  note t = severity_from_volume_and_float32_probability [of Weak "[]" ex_prob ex_cc ex_stats]
  have mem: "?l \<in> set (lesions (process_results Weak [] ex_prob ex_cc ex_stats))"
    by (simp add: lesions_process_results set_sort_reverse ex_stats_def)
  have vol: "volume_mm3 ?l = 600"
    by (simp add: make_lesion_def Let_def ex_stats_def)
  have "mean_probability_of ex_prob ex_cc 1 = 0.8"
    by (simp add: mean_probability_of_def ex_prob_def ex_cc_def flat_def)
  then have pr: "probability ?l = 0.8"
    by (simp add: make_lesion_def Let_def)
  from t mem have "severity ?l = classify_severity Weak (volume_mm3 ?l) (probability ?l)"
    by blast
  then have "severity ?l = classify_severity Weak 600 0.8" by (simp only: vol pr)
  moreover from t have "classify_severity Weak 600 0.8 = ''Alta''" by blast
  ultimately have alta: "severity ?l = ''Alta''" by simp
  have above: "(0.8 :: real) > float32_of_0_6"
    by (simp add: float32_of_0_6_def)
  with t have "classify_severity Weak 600 0.8 = spec_severity 600 0.8"
    by blast
  with mem alta above show ?thesis by blast
qed

lemma threshold_mask_nth:
  assumes "i < length vol" "j < length (vol ! i)" "k < length (vol ! i ! j)"
  shows "threshold_mask thr vol ! i ! j ! k = (if vol ! i ! j ! k > thr then 1 else 0)"
  using assms by (simp add: threshold_mask_def)

lemma segmentation_process_results:
  "segmentation (process_results pr now prob cc stats) = threshold_mask MODEL_THRESHOLD prob"
  by (simp add: process_results_def Let_def)

text \<open>
  C2. With the default threshold 0.5, the lesion mask of a result has value 1 at a voxel
  exactly when the probability of that voxel is strictly greater than 0.5, and value 0
  otherwise; a voxel whose probability equals 0.5 is excluded.
\<close>

theorem binarization_strictly_above_threshold:
  assumes "i < length prob" "j < length (prob ! i)" "k < length (prob ! i ! j)"
  shows "MODEL_THRESHOLD = 0.5
     \<and> (segmentation (process_results pr now prob cc stats) ! i ! j ! k = 1
          \<longleftrightarrow> prob ! i ! j ! k > 0.5)
     \<and> (segmentation (process_results pr now prob cc stats) ! i ! j ! k = 0
          \<longleftrightarrow> \<not> prob ! i ! j ! k > 0.5)
     \<and> (prob ! i ! j ! k = 0.5
          \<longrightarrow> segmentation (process_results pr now prob cc stats) ! i ! j ! k = 0)"
proof -
  have "segmentation (process_results pr now prob cc stats) ! i ! j ! k =
          (if prob ! i ! j ! k > 0.5 then 1 else 0)"
    using assms by (simp add: segmentation_process_results threshold_mask_nth MODEL_THRESHOLD_def)
  then show ?thesis by (simp add: MODEL_THRESHOLD_def)
qed

theorem binarization_strictly_above_threshold_witness:
  "ex_prob ! 0 ! 0 ! 2 = 0.5
   \<and> segmentation (process_results Weak [] ex_prob ex_cc ex_stats) ! 0 ! 0 ! 2 = 0
   \<and> segmentation (process_results Weak [] ex_prob ex_cc ex_stats) ! 0 ! 0 ! 1 = 1"
proof -
  have a: "(0::nat) < length ex_prob" "(0::nat) < length (ex_prob ! 0)"
    and b: "(2::nat) < length (ex_prob ! 0 ! 0)" "(1::nat) < length (ex_prob ! 0 ! 0)"
    by (simp_all add: ex_prob_def)
  have v2: "ex_prob ! 0 ! 0 ! 2 = 0.5" and v1: "ex_prob ! 0 ! 0 ! 1 = 0.7"
    by (simp_all add: ex_prob_def)
  from binarization_strictly_above_threshold [OF a b(1), of Weak "[]" ex_cc ex_stats] v2
  have "segmentation (process_results Weak [] ex_prob ex_cc ex_stats) ! 0 ! 0 ! 2 = 0"
    by blast
  moreover from binarization_strictly_above_threshold [OF a b(2), of Weak "[]" ex_cc ex_stats] v1
  have "segmentation (process_results Weak [] ex_prob ex_cc ex_stats) ! 0 ! 0 ! 1 = 1"
    by simp
  ultimately show ?thesis using v2 by simp
qed

text \<open>
  C3. In every result, num\_lesions is the length of the lesion list, has\_significant\_lesion
  holds exactly when some lesion of the list has severity Alta, and total\_lesion\_volume is
  the sum of the volume\_mm3 values of the lesions of the list. The three values are fields
  of the result, computed when the result is built.
\<close>

theorem aggregate_fields_from_lesion_list:
  "num_lesions (process_results pr now prob cc stats)
     = length (lesions (process_results pr now prob cc stats))
   \<and> (has_significant_lesion (process_results pr now prob cc stats)
        \<longleftrightarrow> (\<exists>l \<in> set (lesions (process_results pr now prob cc stats)). severity l = ''Alta''))
   \<and> total_lesion_volume (process_results pr now prob cc stats)
     = sum_list (map volume_mm3 (lesions (process_results pr now prob cc stats)))"
  by (simp add: process_results_def Let_def py_sum_eq_sum_list list_ex_iff)

theorem aggregate_fields_from_lesion_list_witness:
  "num_lesions (process_results Weak [] ex_prob ex_cc ex_stats) = 2
   \<and> has_significant_lesion (process_results Weak [] ex_prob ex_cc ex_stats)
   \<and> total_lesion_volume (process_results Weak [] ex_prob ex_cc ex_stats) = 650"
proof -
  let ?r = "process_results Weak [] ex_prob ex_cc ex_stats"
  have len: "length (lesions ?r) = 2"
    by (simp add: lesions_process_results sort_reverse_def ex_stats_def)
  have vols: "map volume_mm3 (lesions ?r) = [600, 50]"
    by (simp add: lesions_process_results sort_reverse_def ex_stats_def make_lesion_def Let_def)
  have "mean_probability_of ex_prob ex_cc 1 = 0.8"
    by (simp add: mean_probability_of_def ex_prob_def ex_cc_def flat_def)
  then have "severity (make_lesion Weak ex_prob ex_cc ex_stats 1) = ''Alta''"
    by (simp add: make_lesion_def Let_def ex_stats_def classify_severity_def media_threshold_def float32_of_0_6_def)
  moreover have "make_lesion Weak ex_prob ex_cc ex_stats 1 \<in> set (lesions ?r)"
    by (simp add: lesions_process_results set_sort_reverse ex_stats_def)
  ultimately have alta: "\<exists>l \<in> set (lesions ?r). severity l = ''Alta''"
    by blast
  from aggregate_fields_from_lesion_list [of Weak "[]" ex_prob ex_cc ex_stats] len vols alta
  show ?thesis by simp
qed

lemma filter_sort_reverse:
  "filter (\<lambda>x. key x = k) (sort_reverse key xs) = filter (\<lambda>x. key x = k) xs"
  by (simp add: sort_reverse_def rev_filter [symmetric] sort_key_stable)

lemma sorted_sort_reverse:
  "sorted_wrt (\<lambda>a b. key a \<ge> key b) (sort_reverse key xs)"
proof -
  have "sorted (map key (sort_key key (rev xs)))" by simp
  then have "sorted_wrt (\<lambda>a b. key a \<le> key b) (sort_key key (rev xs))"
    by (simp add: sorted_map)
  then show ?thesis
    by (simp add: sort_reverse_def sorted_wrt_rev)
qed

text \<open>
  C4. The lesion list of every result is in descending order of volume\_mm3, and the sort
  uses no second key: for every volume, the lesions of that volume appear in the result in
  the order in which the statistics filter listed their labels.
\<close>

theorem lesions_sorted_descending_and_stable:
  "sorted_wrt (\<lambda>a b. volume_mm3 a \<ge> volume_mm3 b) (lesions (process_results pr now prob cc stats))
   \<and> (\<forall>v. map lesion_id (filter (\<lambda>l. volume_mm3 l = v) (lesions (process_results pr now prob cc stats)))
          = map int (filter (\<lambda>label. GetPhysicalSize stats label = v) (GetLabels stats)))"
proof -
  have vol: "volume_mm3 (make_lesion pr prob cc stats label) = GetPhysicalSize stats label" for label
    by (simp add: make_lesion_def Let_def)
  have ident: "lesion_id (make_lesion pr prob cc stats label) = int label" for label
    by (simp add: make_lesion_def Let_def)
  have "map lesion_id (filter (\<lambda>l. volume_mm3 l = v) (lesions (process_results pr now prob cc stats)))
          = map int (filter (\<lambda>label. GetPhysicalSize stats label = v) (GetLabels stats))" for v
    by (simp add: lesions_process_results filter_sort_reverse filter_map o_def vol ident)
  then show ?thesis
    by (simp add: lesions_process_results sorted_sort_reverse)
qed

theorem lesions_sorted_descending_and_stable_witness:
  "map lesion_id (filter (\<lambda>l. volume_mm3 l = 50) (lesions (process_results Weak [] ex_prob ex_cc ex_stats_tie)))
     = [1, 3]
   \<and> map lesion_id (lesions (process_results Weak [] ex_prob ex_cc ex_stats_tie)) = [2, 1, 3]"
proof -
  have "map lesion_id (lesions (process_results Weak [] ex_prob ex_cc ex_stats_tie)) = [2, 1, 3]"
    by (simp add: lesions_process_results sort_reverse_def ex_stats_tie_def make_lesion_def Let_def)
  moreover have "map int (filter (\<lambda>label. GetPhysicalSize ex_stats_tie label = 50) (GetLabels ex_stats_tie))
      = [1, 3]"
    by (simp add: ex_stats_tie_def)
  ultimately show ?thesis
    using lesions_sorted_descending_and_stable [of Weak "[]" ex_prob ex_cc ex_stats_tie]
    by simp
qed

section \<open>Properties of the case manager\<close>

lemma ex_process_file_ok:
  "process_file ex_env ''/data/p1/T2W.nii.gz'' = Inr
   [(''path'', PStr ''/data/p1/T2W.nii.gz''), (''format'', PStr ''.nii.gz''),
    (''loaded_with'', PStr ''SimpleITK''), (''array'', PArray),
    (''metadata'', PDict [(''dimensions'', PTuple [PInt 2, PInt 2, PInt 1]),
                          (''0010|0020 PatientID'', PStr ''P-17'')]),
    (''sequence_type'', PStr ''t2w'')]"
  by (simp add: process_file_def load_medical_image_def ex_env_def splitext_def rfind_def ascii_lower_def
      ascii_lower_char_def loaded_def basename_def sequence_type_of_def Let_def)

lemma ex_process_file_missing:
  "process_file ex_env ''/data/p1/missing.nii'' = Inl ValueError"
  by (simp add: process_file_def load_medical_image_def ex_env_def)


lemma get_current_case_last:
  "get_current_case (st\<lparr>cases := cs @ [c], current_case_index := int (length (cs @ [c])) - 1, heap := h\<rparr>) = Some c"
  by (simp add: get_current_case_def no_current_def current_def)



lemma str_contains_sublist: "str_contains sub s \<longleftrightarrow> sublist sub s"
  by (induction s) (auto simp: sublist_Cons_right)

lemma map_of_update_same: "map_of (AList.update k v d) k = Some v"
  by (simp add: update_conv')

lemma process_file_sequence_type:
  assumes "process_file e file_path = Inr file_info"
  shows "map_of file_info ''sequence_type'' = Some (PStr (sequence_type_of (str_lower e (basename file_path))))"
  using assms
  by (auto simp: process_file_def Let_def update_conv' split: sum.splits option.splits if_splits)

lemma process_file_path:
  assumes "process_file e file_path = Inr file_info"
  shows "map_of file_info ''path'' = Some (PStr file_path)"
  using assms
  by (auto simp: process_file_def load_medical_image_def loaded_def Let_def update_conv'
      split: sum.splits option.splits if_splits)

lemma process_files_heap:
  "\<exists>hs. snd (process_files e h ps) = h @ hs
        \<and> (\<forall>file_info \<in> set hs. \<exists>p \<in> set ps. process_file e p = Inr file_info)"
proof (induction ps arbitrary: h)
  case Nil
  then show ?case by simp
next
  case (Cons p ps)
  show ?case
  proof (cases "process_file e p")
    case (Inl err)
    with Cons [of h] show ?thesis by auto
  next
    case (Inr fi)
    from Cons [of "h @ [fi]"] obtain hs where
      hs: "snd (process_files e (h @ [fi]) ps) = (h @ [fi]) @ hs"
        "\<forall>file_info \<in> set hs. \<exists>p \<in> set ps. process_file e p = Inr file_info"
      by blast
    have "snd (process_files e h (p # ps)) = h @ (fi # hs)"
      using Inr hs(1) by (simp add: split_beta)
    moreover have "\<forall>file_info \<in> set (fi # hs). \<exists>q \<in> set (p # ps). process_file e q = Inr file_info"
      using Inr hs(2) by auto
    ultimately show ?thesis by blast
  qed
qed

lemma rfind_last_separator:
  assumes "c \<notin> set name"
  shows "rfind c (dir @ c # name) = int (length dir)"
proof -
  have "takeWhile (\<lambda>x. x \<noteq> c) (rev name @ c # rev dir)
      = rev name @ takeWhile (\<lambda>x. x \<noteq> c) (c # rev dir)"
  proof (rule takeWhile_append2)
    fix x assume "x \<in> set (rev name)"
    with assms show "x \<noteq> c" by auto
  qed
  then have "takeWhile (\<lambda>x. x \<noteq> c) (rev name @ c # rev dir) = rev name"
    by simp
  then show ?thesis by (simp add: rfind_def)
qed

lemma basename_after_last_separator:
  assumes "CHR ''/'' \<notin> set name"
  shows "basename (dir @ CHR ''/'' # name) = name \<and> basename name = name"
proof -
  have "nat (int (length dir) + 1) = Suc (length dir)" by simp
  then have "basename (dir @ CHR ''/'' # name) = name"
    by (simp add: basename_def rfind_last_separator [OF assms])
  moreover have "basename name = name"
    using assms by (simp add: basename_def rfind_def)
  ultimately show ?thesis by simp
qed

text \<open>
  C9. The sequence\_type of a file record is computed from the lower-cased base name of its
  path alone, by substring tests in this order: t2 or t2w gives t2w, else adc gives adc,
  else dwi or hbv gives dwi, else cor gives cor, else sag gives sag, else unknown. The base
  name of a path is its text after the last separator (the whole path when it has none),
  so the directories of the path do not count, and lower-casing is Python's
  \<^verbatim>\<open>str.lower\<close>. This holds for the record \_process\_file returns, hence for the record
  add\_file\_to\_current\_case allocates and for every record load\_case allocates.
\<close>

theorem sequence_type_from_base_name:
  "(process_file e file_path = Inr file_info \<longrightarrow>
      map_of file_info ''sequence_type''
        = Some (PStr (sequence_type_of (str_lower e (basename file_path)))))
   \<and> (add_file_to_current_case e st file_path = Inr (ok, st') \<longrightarrow>
        (\<exists>file_info. heap st' = heap st @ [file_info]
           \<and> map_of file_info ''sequence_type''
               = Some (PStr (sequence_type_of (str_lower e (basename file_path))))))
   \<and> (load_case e st file_paths = Inr (c, st') \<longrightarrow>
        (\<exists>hs. heap st' = heap st @ hs
           \<and> (\<forall>file_info \<in> set hs. \<exists>p \<in> set file_paths.
                 map_of file_info ''path'' = Some (PStr p)
                 \<and> map_of file_info ''sequence_type''
                     = Some (PStr (sequence_type_of (str_lower e (basename p)))))))
   \<and> (CHR ''/'' \<notin> set name \<longrightarrow>
        basename (dir @ CHR ''/'' # name) = name \<and> basename name = name)
   \<and> sequence_type_of file_name =
       (if sublist ''t2'' file_name \<or> sublist ''t2w'' file_name then ''t2w''
        else if sublist ''adc'' file_name then ''adc''
        else if sublist ''dwi'' file_name \<or> sublist ''hbv'' file_name then ''dwi''
        else if sublist ''cor'' file_name then ''cor''
        else if sublist ''sag'' file_name then ''sag''
        else ''unknown'')"
proof (intro conjI impI)
  assume "process_file e file_path = Inr file_info"
  then show "map_of file_info ''sequence_type''
      = Some (PStr (sequence_type_of (str_lower e (basename file_path))))"
    by (rule process_file_sequence_type)
next
  assume a: "add_file_to_current_case e st file_path = Inr (ok, st')"
  then obtain fi where fi: "process_file e file_path = Inr fi"
    by (auto simp: add_file_to_current_case_def Let_def split: if_splits sum.splits)
  with a have "heap st' = heap st @ [fi]"
    by (auto simp: add_file_to_current_case_def Let_def put_current_def
        split: if_splits sum.splits pyval.splits)
  with process_file_sequence_type [OF fi]
  show "\<exists>file_info. heap st' = heap st @ [file_info]
           \<and> map_of file_info ''sequence_type''
               = Some (PStr (sequence_type_of (str_lower e (basename file_path))))"
    by blast
next
  assume a: "load_case e st file_paths = Inr (c, st')"
  then have h: "heap st' = snd (process_files e (heap st) file_paths)"
    by (auto simp: load_case_def Let_def split_beta split: if_splits)
  from process_files_heap [of e "heap st" file_paths] obtain hs where
    hs: "snd (process_files e (heap st) file_paths) = heap st @ hs"
      "\<forall>file_info \<in> set hs. \<exists>p \<in> set file_paths. process_file e p = Inr file_info"
    by blast
  have "\<forall>file_info \<in> set hs. \<exists>p \<in> set file_paths.
                 map_of file_info ''path'' = Some (PStr p)
                 \<and> map_of file_info ''sequence_type''
                     = Some (PStr (sequence_type_of (str_lower e (basename p))))"
    using hs(2) process_file_sequence_type process_file_path by blast
  with h hs(1)
  show "\<exists>hs. heap st' = heap st @ hs
           \<and> (\<forall>file_info \<in> set hs. \<exists>p \<in> set file_paths.
                 map_of file_info ''path'' = Some (PStr p)
                 \<and> map_of file_info ''sequence_type''
                     = Some (PStr (sequence_type_of (str_lower e (basename p)))))"
    by auto
next
  assume "CHR ''/'' \<notin> set name"
  then show "basename (dir @ CHR ''/'' # name) = name" "basename name = name"
    by (simp_all add: basename_after_last_separator)
next
  show "sequence_type_of file_name =
       (if sublist ''t2'' file_name \<or> sublist ''t2w'' file_name then ''t2w''
        else if sublist ''adc'' file_name then ''adc''
        else if sublist ''dwi'' file_name \<or> sublist ''hbv'' file_name then ''dwi''
        else if sublist ''cor'' file_name then ''cor''
        else if sublist ''sag'' file_name then ''sag''
        else ''unknown'')"
    by (simp only: sequence_type_of_def str_contains_sublist)
qed

lemma ex_loaded_eq:
  "load_case ex_env (init_manager (\<lambda>p. NoFile)) ex_paths = Inr (ex_case, ex_loaded)"
proof -
  have e: "stamp_now ex_env = ''20240101_120000''" "iso_now ex_env = ''2024-01-01T12:00:00''"
    "str_lower ex_env = ascii_lower"
    by (simp_all add: ex_env_def)
  have n: "generate_case_name ex_paths = ''Caso p1''"
    by (simp add: ex_paths_def generate_case_name_def dirname_def basename_def rfind_def)
  show ?thesis
    by (simp add: load_case_def n e ex_case_def ex_loaded_def ex_file_def,
        simp add: ex_paths_def ex_process_file_ok ex_process_file_missing init_manager_def
          extract_case_metadata_def first_matching_def set_case_metadata_def ascii_lower_def
          ascii_lower_char_def e Let_def)
qed

text \<open>A path whose directory holds the pattern t2 and whose base name holds adc and cor.\<close>

lemma ex_process_file_adc:
  "process_file ex_env ''/data/t2/ADC_cor.mha'' = Inr
   [(''path'', PStr ''/data/t2/ADC_cor.mha''), (''format'', PStr ''.mha''),
    (''loaded_with'', PStr ''SimpleITK''), (''array'', PArray),
    (''metadata'', PDict [(''dimensions'', PTuple [PInt 2, PInt 2, PInt 1]),
                          (''0010|0020 PatientID'', PStr ''P-17'')]),
    (''sequence_type'', PStr ''adc'')]"
  by (simp add: process_file_def load_medical_image_def ex_env_def splitext_def rfind_def ascii_lower_def
      ascii_lower_char_def loaded_def basename_def sequence_type_of_def Let_def)

lemma ex_add_file:
  "\<exists>st'. add_file_to_current_case ex_env ex_loaded ''/data/t2/ADC_cor.mha'' = Inr (True, st')"
  by (simp add: add_file_to_current_case_def ex_process_file_adc no_current_def current_def
      ex_loaded_def ex_case_def mark_modified_def Let_def)

theorem sequence_type_from_base_name_witness:
  "basename ''/data/t2/ADC_cor.mha'' = ''ADC_cor.mha''
   \<and> sublist ''t2'' (str_lower ex_env ''/data/t2/ADC_cor.mha'')
   \<and> (\<exists>file_info. process_file ex_env ''/data/t2/ADC_cor.mha'' = Inr file_info
       \<and> map_of file_info ''sequence_type'' = Some (PStr ''adc''))
   \<and> (\<exists>st' file_info. add_file_to_current_case ex_env ex_loaded ''/data/t2/ADC_cor.mha'' = Inr (True, st')
        \<and> heap st' = heap ex_loaded @ [file_info]
        \<and> map_of file_info ''sequence_type'' = Some (PStr ''adc''))
   \<and> heap ex_loaded = heap (init_manager (\<lambda>p. NoFile)) @ [ex_file]
   \<and> map_of ex_file ''sequence_type''
       = Some (PStr (sequence_type_of (str_lower ex_env (basename ''/data/p1/T2W.nii.gz''))))"
proof -
  let ?p = "''/data/t2/ADC_cor.mha''"
  note t = sequence_type_from_base_name
  have sep: "CHR ''/'' \<notin> set ''ADC_cor.mha''" by simp
  from t [of ex_env ?p _ ex_loaded _ _ _ _ "''ADC_cor.mha''" "''/data/t2''"] sep
  have "basename (''/data/t2'' @ CHR ''/'' # ''ADC_cor.mha'') = ''ADC_cor.mha''"
    by blast
  then have base: "basename ?p = ''ADC_cor.mha''" by simp
  have lw: "str_lower ex_env = ascii_lower" by (simp add: ex_env_def)
  have dir: "sublist ''t2'' (str_lower ex_env ?p)"
    by (simp add: lw str_contains_sublist [symmetric] ascii_lower_def ascii_lower_char_def)
  have v: "sequence_type_of (str_lower ex_env (basename ?p)) = ''adc''"
    by (simp add: base lw sequence_type_of_def ascii_lower_def ascii_lower_char_def)
  from ex_add_file obtain st' where
    st': "add_file_to_current_case ex_env ex_loaded ?p = Inr (True, st')"
    by blast
  from t [of ex_env ?p _ ex_loaded True st'] ex_process_file_adc v
  have one: "\<exists>file_info. process_file ex_env ?p = Inr file_info
       \<and> map_of file_info ''sequence_type'' = Some (PStr ''adc'')"
    by simp
  from t [of ex_env ?p _ ex_loaded True st'] st' v
  have two: "\<exists>st' file_info. add_file_to_current_case ex_env ex_loaded ?p = Inr (True, st')
        \<and> heap st' = heap ex_loaded @ [file_info]
        \<and> map_of file_info ''sequence_type'' = Some (PStr ''adc'')"
    by auto
  have h: "heap ex_loaded = heap (init_manager (\<lambda>p. NoFile)) @ [ex_file]"
    by (simp add: ex_loaded_def init_manager_def)
  from t [of ex_env _ _ "init_manager (\<lambda>p. NoFile)" _ ex_loaded ex_paths ex_case] ex_loaded_eq
  obtain hs where hs: "heap ex_loaded = heap (init_manager (\<lambda>p. NoFile)) @ hs"
    "\<forall>file_info \<in> set hs. \<exists>p \<in> set ex_paths.
        map_of file_info ''path'' = Some (PStr p)
        \<and> map_of file_info ''sequence_type''
            = Some (PStr (sequence_type_of (str_lower ex_env (basename p))))"
    by blast
  from hs(1) h have "hs = [ex_file]" by simp
  with hs(2) obtain p where p: "p \<in> set ex_paths" "map_of ex_file ''path'' = Some (PStr p)"
    "map_of ex_file ''sequence_type''
        = Some (PStr (sequence_type_of (str_lower ex_env (basename p))))"
    by auto
  from p(2) have "p = ''/data/p1/T2W.nii.gz''" by (simp add: ex_file_def)
  with p(3) have three: "map_of ex_file ''sequence_type''
       = Some (PStr (sequence_type_of (str_lower ex_env (basename ''/data/p1/T2W.nii.gz''))))"
    by simp
  from base dir one two h three show ?thesis by blast
qed

lemma put_current_shape [simp]:
  "length (cases (put_current st c)) = length (cases st)"
  "current_case_index (put_current st c) = current_case_index st"
  by (simp_all add: put_current_def)

lemma write_disk_shape [simp]:
  "cases (write_disk st p fc) = cases st"
  "current_case_index (write_disk st p fc) = current_case_index st"
  by (simp_all add: write_disk_def)

lemma index_ok_same_shape:
  assumes "index_ok st" "length (cases st') = length (cases st)"
    "current_case_index st' = current_case_index st"
  shows "index_ok st'"
  using assms by (simp add: index_ok_def)

lemma dump_case_shape:
  "length (cases (snd (dump_case st p c))) = length (cases st)
   \<and> current_case_index (snd (dump_case st p c)) = current_case_index st"
  by (simp add: dump_case_def Let_def split: sum.splits prod.splits bool.splits option.splits)

lemma save_shape:
  assumes "save_current_case e st p = Inr (ok, st')"
  shows "length (cases st') = length (cases st) \<and> current_case_index st' = current_case_index st"
proof (cases "no_current st")
  case True
  with assms show ?thesis by (simp add: save_current_case_def)
next
  case False
  show ?thesis
  proof (cases "save_path e (current st) p")
    case (Inl err)
    with assms False show ?thesis by (simp add: save_current_case_def)
  next
    case path: (Inr q)
    show ?thesis
    proof (cases "setitem (current st) ''modified_date'' (PStr (iso_now e))")
      case (Inl err)
      with assms False path show ?thesis by (simp add: save_current_case_def)
    next
      case (Inr c)
      show ?thesis
      proof (cases "writable e q")
        case True
        with assms False path Inr have "st' = snd (dump_case (put_current st c) q c)"
          by (simp add: save_current_case_def)
        then show ?thesis
          using dump_case_shape [of "put_current st c" q c] by simp
      next
        case no: False
        with assms False path Inr show ?thesis
          by (auto simp: save_current_case_def)
      qed
    qed
  qed
qed

lemma add_file_shape:
  assumes "add_file_to_current_case e st p = Inr (ok, st')"
  shows "length (cases st') = length (cases st) \<and> current_case_index st' = current_case_index st"
  using assms
  by (auto simp: add_file_to_current_case_def Let_def split: if_splits sum.splits pyval.splits)

lemma update_metadata_shape:
  assumes "update_current_case_metadata e st m = Inr (ok, st')"
  shows "length (cases st') = length (cases st) \<and> current_case_index st' = current_case_index st"
  using assms
  by (auto simp: update_current_case_metadata_def Let_def split: if_splits sum.splits pyval.splits)

lemma set_results_shape:
  assumes "set_current_case_prediction_results e st r = Inr (ok, st')"
  shows "length (cases st') = length (cases st) \<and> current_case_index st' = current_case_index st"
  using assms
  by (auto simp: set_current_case_prediction_results_def split: if_splits sum.splits)

lemma remove_file_shape:
  assumes "remove_file_from_current_case e st i = Inr (ok, st')"
  shows "length (cases st') = length (cases st) \<and> current_case_index st' = current_case_index st"
  using assms
  by (auto simp: remove_file_from_current_case_def Let_def split: if_splits sum.splits pyval.splits)

lemma load_case_index_ok:
  assumes "load_case e st ps = Inr (c, st')"
  shows "index_ok st'"
  using assms
  by (auto simp: load_case_def Let_def split_beta index_ok_def split: if_splits)

lemma load_case_from_file_index_ok:
  assumes "index_ok st"
  shows "index_ok (snd (load_case_from_file st p))"
  using assms
  by (auto simp: load_case_from_file_def Let_def split_beta index_ok_def
      split: file_content.splits sum.splits bool.splits pyval.splits)

lemma close_current_case_index_ok:
  assumes "index_ok st"
  shows "index_ok (close_current_case st)"
  using assms
  by (auto simp: close_current_case_def Let_def index_ok_def no_current_def)

lemma after_index_ok:
  assumes "index_ok st"
  shows "index_ok (after e st op)"
proof (cases op)
  case (LoadCase ps)
  with assms show ?thesis by (auto split: sum.splits dest: load_case_index_ok)
next
  case CloseCurrent
  with assms show ?thesis by (simp add: close_current_case_index_ok)
next
  case CloseAll
  then show ?thesis by (simp add: close_all_cases_def index_ok_def)
next
  case (Save p)
  with assms show ?thesis
    by (auto split: sum.splits dest!: save_shape intro: index_ok_same_shape)
next
  case (LoadFromFile p)
  with assms show ?thesis by (simp add: load_case_from_file_index_ok)
next
  case (AddFile p)
  with assms show ?thesis
    by (auto split: sum.splits dest!: add_file_shape intro: index_ok_same_shape)
next
  case (UpdateMetadata m)
  with assms show ?thesis
    by (auto split: sum.splits dest!: update_metadata_shape intro: index_ok_same_shape)
next
  case (SetResults r)
  with assms show ?thesis
    by (auto split: sum.splits dest!: set_results_shape intro: index_ok_same_shape)
next
  case (RemoveFile i)
  with assms show ?thesis
    by (auto split: sum.splits dest!: remove_file_shape intro: index_ok_same_shape)
qed

lemma run_index_ok:
  "index_ok st \<Longrightarrow> index_ok (foldl (after e) st ops)"
  by (induction ops arbitrary: st) (simp_all add: after_index_ok)

text \<open>
  C8. The current index is -1 or a valid index into the case list: this holds for a new
  manager, is preserved by every operation of the manager (a call that raises changes
  nothing), and so holds after every run of operations. Closing the only open case leaves
  no case and the index -1. get\_current\_case returns None exactly when the index is not
  a valid index into the case list, which under the invariant means the index is -1.
\<close>

theorem current_index_invariant:
  "index_ok (init_manager d)
   \<and> (index_ok st \<longrightarrow> index_ok (after e st op))
   \<and> index_ok (foldl (after e) (init_manager d) ops)
   \<and> (length (cases st) = 1 \<and> current_case_index st = 0 \<longrightarrow>
         cases (close_current_case st) = [] \<and> current_case_index (close_current_case st) = - 1)
   \<and> (get_current_case st = None \<longleftrightarrow>
         \<not> (0 \<le> current_case_index st \<and> current_case_index st < int (length (cases st))))
   \<and> (index_ok st \<longrightarrow> (get_current_case st = None \<longleftrightarrow> current_case_index st = - 1))"
proof -
  have init: "index_ok (init_manager d)"
    by (simp add: init_manager_def index_ok_def)
  have close_only: "cases (close_current_case st) = [] \<and> current_case_index (close_current_case st) = - 1"
    if "length (cases st) = 1 \<and> current_case_index st = 0"
    using that by (simp add: close_current_case_def no_current_def Let_def)
  have none: "get_current_case st = None \<longleftrightarrow>
         \<not> (0 \<le> current_case_index st \<and> current_case_index st < int (length (cases st)))"
    by (auto simp: get_current_case_def no_current_def)
  have none': "get_current_case st = None \<longleftrightarrow> current_case_index st = - 1" if "index_ok st"
    using that by (auto simp: get_current_case_def no_current_def index_ok_def)
  from init close_only none none' show ?thesis
    by (simp add: after_index_ok run_index_ok)
qed

theorem current_index_invariant_witness:
  "index_ok (after ex_env ex_loaded (AddFile ''/data/t2/ADC_cor.mha''))
   \<and> cases (close_current_case ex_loaded) = []
   \<and> current_case_index (close_current_case ex_loaded) = - 1
   \<and> get_current_case (close_current_case ex_loaded) = None
   \<and> get_current_case ex_loaded \<noteq> None"
proof -
  have ok: "index_ok ex_loaded"
    by (simp add: index_ok_def ex_loaded_def)
  have only: "length (cases ex_loaded) = 1 \<and> current_case_index ex_loaded = 0"
    by (simp add: ex_loaded_def)
  have valid: "0 \<le> current_case_index ex_loaded
      \<and> current_case_index ex_loaded < int (length (cases ex_loaded))"
    by (simp add: ex_loaded_def)
  note t = current_index_invariant
  from t [of "\<lambda>p. NoFile" ex_loaded ex_env "AddFile ''/data/t2/ADC_cor.mha''" "[]"] ok
  have one: "index_ok (after ex_env ex_loaded (AddFile ''/data/t2/ADC_cor.mha''))"
    by blast
  from t [of "\<lambda>p. NoFile" ex_loaded ex_env CloseCurrent "[]"] only
  have two: "cases (close_current_case ex_loaded) = []
      \<and> current_case_index (close_current_case ex_loaded) = - 1"
    by blast
  from t [of "\<lambda>p. NoFile" ex_loaded ex_env CloseCurrent "[]"] valid
  have three: "get_current_case ex_loaded \<noteq> None"
    by blast
  from t [of "\<lambda>p. NoFile" "close_current_case ex_loaded" ex_env CloseCurrent "[]"] two
  have four: "get_current_case (close_current_case ex_loaded) = None"
    by simp
  from one two three four show ?thesis by blast
qed

lemma strip_arrays_refs:
  assumes "\<forall>f \<in> set fs. \<exists>a. f = PRef a \<and> a < length h"
  shows "\<exists>h'. strip_arrays h fs = (True, h') \<and> length h' = length h
          \<and> (\<forall>a < length h. h' ! a = (if PRef a \<in> set fs then AList.delete ''array'' (h ! a) else h ! a))"
  using assms
proof (induction fs arbitrary: h)
  case Nil
  then show ?case by simp
next
  case (Cons f fs)
  then obtain a where f: "f = PRef a" and a: "a < length h" by auto
  let ?h1 = "h[a := AList.delete ''array'' (h ! a)]"
  have step: "strip_arrays h (f # fs) = strip_arrays ?h1 fs"
  proof (cases "''array'' \<in> fst ` set (h ! a)")
    case True
    then show ?thesis by (simp add: f)
  next
    case False
    then have "?h1 = h" by (simp add: list_update_same_conv a)
    with False show ?thesis by (simp add: f)
  qed
  from Cons.prems have "\<forall>g \<in> set fs. \<exists>b. g = PRef b \<and> b < length ?h1"
    by simp
  from Cons.IH [OF this] obtain h' where
    h': "strip_arrays ?h1 fs = (True, h')" "length h' = length ?h1"
      "\<forall>b < length ?h1. h' ! b = (if PRef b \<in> set fs then AList.delete ''array'' (?h1 ! b) else ?h1 ! b)"
    by blast
  have "\<forall>b < length h. h' ! b = (if PRef b \<in> set (f # fs) then AList.delete ''array'' (h ! b) else h ! b)"
  proof (intro allI impI)
    fix b assume b: "b < length h"
    with h'(3) have eq: "h' ! b = (if PRef b \<in> set fs then AList.delete ''array'' (?h1 ! b) else ?h1 ! b)"
      by simp
    have nth: "?h1 ! b = (if b = a then AList.delete ''array'' (h ! a) else h ! b)"
      using b by (simp add: nth_list_update)
    show "h' ! b = (if PRef b \<in> set (f # fs) then AList.delete ''array'' (h ! b) else h ! b)"
      unfolding eq nth by (simp add: f delete_idem)
  qed
  with step h'(1,2) show ?case by simp
qed

lemma getitem_setitem_other:
  assumes "getitem c k = Inr v" "k' \<noteq> k"
  shows "\<exists>c'. setitem c k' v' = Inr c' \<and> getitem c' k = Inr v"
  using assms by (cases c) (auto simp: update_conv' split: option.splits)

text \<open>
  C10, as the claim states it, fails: when the file cannot be opened for writing, the call
  returns False before the loop over the file records, and the record of the current case
  still holds its array.
\<close>

theorem save_keeps_arrays_when_file_cannot_open:
  "get_current_case ex_loaded = Some ex_case
   \<and> getitem ex_case ''files'' = Inr (PList [PRef 0])
   \<and> ''array'' \<in> fst ` set (heap ex_loaded ! 0)
   \<and> save_current_case ex_env_readonly ex_loaded None = Inr (False, ex_loaded)"
proof -
  have cur: "\<not> no_current ex_loaded"
    by (simp add: no_current_def ex_loaded_def)
  have c: "current ex_loaded = ex_case"
    by (simp add: current_def ex_loaded_def)
  have e: "iso_now ex_env_readonly = ''2024-01-01T12:00:00''"
    "default_path ex_env_readonly v = ''/tmp/case.json''" "\<not> writable ex_env_readonly p" for v p
    by (simp_all add: ex_env_readonly_def ex_env_def)
  have m: "setitem ex_case ''modified_date'' (PStr ''2024-01-01T12:00:00'') = Inr ex_case"
    by (simp add: ex_case_def)
  have same: "put_current ex_loaded ex_case = ex_loaded"
    by (simp add: ex_loaded_def put_current_def)
  have path: "save_path ex_env_readonly ex_case None = Inr ''/tmp/case.json''"
    by (simp add: save_path_def ex_case_def e)
  have "save_current_case ex_env_readonly ex_loaded None = Inr (False, ex_loaded)"
    by (simp add: save_current_case_def cur c path e m same)
  moreover have "get_current_case ex_loaded = Some ex_case"
    by (simp add: get_current_case_def cur c)
  moreover have "getitem ex_case ''files'' = Inr (PList [PRef 0])"
    by (simp add: ex_case_def)
  moreover have "''array'' \<in> fst ` set (heap ex_loaded ! 0)"
    by (simp add: ex_loaded_def ex_file_def)
  ultimately show ?thesis by simp
qed

text \<open>
  C10, amended. When save\_current\_case opens its file for writing, the array entry is
  removed from the file records of the live case, not only from the text written: the case
  keeps the same files list of the same references, and every record that list refers to
  is, after the call, the record without its array key (its other entries unchanged). The
  dictionary that is serialised is a shallow copy, so the records it reaches are the
  records of the case. This holds whether or not the serialisation that follows succeeds.
\<close>

theorem save_removes_arrays_in_memory:
  assumes cur: "\<not> no_current st"
    and files: "getitem (current st) ''files'' = Inr (PList fs)"
    and refs: "\<forall>f \<in> set fs. \<exists>a. f = PRef a \<and> a < length (heap st)"
    and path: "save_path e (current st) file_path = Inr p"
    and opened: "writable e p"
  shows "\<exists>ok st' c'. save_current_case e st file_path = Inr (ok, st')
     \<and> get_current_case st' = Some c'
     \<and> getitem c' ''files'' = Inr (PList fs)
     \<and> length (heap st') = length (heap st)
     \<and> (\<forall>a. PRef a \<in> set fs \<longrightarrow>
           heap st' ! a = AList.delete ''array'' (heap st ! a)
           \<and> ''array'' \<notin> fst ` set (heap st' ! a))
     \<and> (\<forall>a < length (heap st). PRef a \<notin> set fs \<longrightarrow> heap st' ! a = heap st ! a)
     \<and> (ok \<longrightarrow> (\<exists>text. disk st' p = JsonText text))"
proof -
  from getitem_setitem_other [OF files, of "''modified_date''" "PStr (iso_now e)"]
  obtain c1 where c1: "setitem (current st) ''modified_date'' (PStr (iso_now e)) = Inr c1"
    and f1: "getitem c1 ''files'' = Inr (PList fs)"
    by auto
  let ?st1 = "put_current st c1"
  from strip_arrays_refs [OF refs] obtain h' where
    h': "strip_arrays (heap st) fs = (True, h')" "length h' = length (heap st)"
      "\<forall>a < length (heap st). h' ! a = (if PRef a \<in> set fs then AList.delete ''array'' (heap st ! a) else heap st ! a)"
    by blast
  have heap1: "heap ?st1 = heap st" by (simp add: put_current_def)
  from getitem_setitem_other [OF f1, of "''has_changes''" "PBool False"]
  obtain c2 where c2: "setitem c1 ''has_changes'' (PBool False) = Inr c2"
    and f2: "getitem c2 ''files'' = Inr (PList fs)"
    by auto
  have save: "save_current_case e st file_path = Inr (dump_case ?st1 p c1)"
    using cur path c1 opened by (simp add: save_current_case_def)
  have idx: "nat (current_case_index st) < length (cases st)"
    using cur by (auto simp: no_current_def)
  have arr: "\<forall>a. PRef a \<in> set fs \<longrightarrow>
           h' ! a = AList.delete ''array'' (heap st ! a) \<and> ''array'' \<notin> fst ` set (h' ! a)"
  proof (intro allI impI)
    fix a assume m: "PRef a \<in> set fs"
    with refs have "a < length (heap st)" by auto
    with h'(3) m have "h' ! a = AList.delete ''array'' (heap st ! a)" by simp
    then show "h' ! a = AList.delete ''array'' (heap st ! a) \<and> ''array'' \<notin> fst ` set (h' ! a)"
      by (simp add: delete_notin_dom)
  qed
  have rest: "\<forall>a < length (heap st). PRef a \<notin> set fs \<longrightarrow> h' ! a = heap st ! a"
    using h'(3) by simp
  show ?thesis
  proof (cases "json_value (snapshot h' c1)")
    case None
    then have d: "dump_case ?st1 p c1 = (False, write_disk (?st1\<lparr>heap := h'\<rparr>) p Garbage)"
      using f1 h'(1) by (simp add: dump_case_def heap1)
    have g: "get_current_case (write_disk (?st1\<lparr>heap := h'\<rparr>) p Garbage) = Some c1"
      using cur idx
      by (simp add: get_current_case_def no_current_def current_def write_disk_def put_current_def)
    let ?st' = "write_disk (?st1\<lparr>heap := h'\<rparr>) p Garbage"
    have hp: "heap ?st' = h'" by (simp add: write_disk_def)
    show ?thesis
    proof (intro exI conjI)
      show "save_current_case e st file_path = Inr (False, ?st')"
        using save d by simp
      show "get_current_case ?st' = Some c1" by (rule g)
      show "getitem c1 ''files'' = Inr (PList fs)" by (rule f1)
      show "length (heap ?st') = length (heap st)" using h'(2) hp by simp
      show "\<forall>a. PRef a \<in> set fs \<longrightarrow>
           heap ?st' ! a = AList.delete ''array'' (heap st ! a)
           \<and> ''array'' \<notin> fst ` set (heap ?st' ! a)"
        using arr unfolding hp .
      show "\<forall>a < length (heap st). PRef a \<notin> set fs \<longrightarrow> heap ?st' ! a = heap st ! a"
        using rest unfolding hp .
      show "False \<longrightarrow> (\<exists>text. disk ?st' p = JsonText text)"
        by simp
    qed
  next
    case (Some js)
    then have d: "dump_case ?st1 p c1 =
        (True, write_disk (put_current (?st1\<lparr>heap := h'\<rparr>) c2) p (JsonText js))"
      using f1 h'(1) c2 by (simp add: dump_case_def heap1)
    let ?st' = "write_disk (put_current (?st1\<lparr>heap := h'\<rparr>) c2) p (JsonText js)"
    have g: "get_current_case ?st' = Some c2"
      using cur idx
      by (simp add: get_current_case_def no_current_def current_def write_disk_def put_current_def)
    have hp: "heap ?st' = h'" by (simp add: write_disk_def put_current_def)
    have dk: "disk ?st' p = JsonText js" by (simp add: write_disk_def)
    show ?thesis
    proof (intro exI conjI)
      show "save_current_case e st file_path = Inr (True, ?st')"
        using save d by simp
      show "get_current_case ?st' = Some c2" by (rule g)
      show "getitem c2 ''files'' = Inr (PList fs)" by (rule f2)
      show "length (heap ?st') = length (heap st)" using h'(2) hp by simp
      show "\<forall>a. PRef a \<in> set fs \<longrightarrow>
           heap ?st' ! a = AList.delete ''array'' (heap st ! a)
           \<and> ''array'' \<notin> fst ` set (heap ?st' ! a)"
        using arr unfolding hp .
      show "\<forall>a < length (heap st). PRef a \<notin> set fs \<longrightarrow> heap ?st' ! a = heap st ! a"
        using rest unfolding hp .
      show "True \<longrightarrow> (\<exists>text. disk ?st' p = JsonText text)"
        using dk by simp
    qed
  qed
qed

theorem save_removes_arrays_in_memory_witness:
  "''array'' \<in> fst ` set (heap ex_loaded ! 0)
   \<and> (\<exists>ok st' c'. save_current_case ex_env ex_loaded None = Inr (ok, st')
         \<and> get_current_case st' = Some c'
         \<and> getitem c' ''files'' = Inr (PList [PRef 0])
         \<and> ''array'' \<notin> fst ` set (heap st' ! 0))"
proof -
  have before: "''array'' \<in> fst ` set (heap ex_loaded ! 0)"
    by (simp add: ex_loaded_def ex_file_def)
  have cur: "\<not> no_current ex_loaded"
    by (simp add: no_current_def ex_loaded_def)
  have files: "getitem (current ex_loaded) ''files'' = Inr (PList [PRef 0])"
    by (simp add: current_def ex_loaded_def ex_case_def)
  have refs: "\<forall>f \<in> set [PRef 0]. \<exists>a. f = PRef a \<and> a < length (heap ex_loaded)"
    by (simp add: ex_loaded_def)
  have path: "save_path ex_env (current ex_loaded) None = Inr ''/tmp/case.json''"
    by (simp add: save_path_def current_def ex_loaded_def ex_case_def ex_env_def)
  have opened: "writable ex_env ''/tmp/case.json''"
    by (simp add: ex_env_def)
  from save_removes_arrays_in_memory [OF cur files refs path opened]
  obtain ok st' c' where "save_current_case ex_env ex_loaded None = Inr (ok, st')"
    "get_current_case st' = Some c'" "getitem c' ''files'' = Inr (PList [PRef 0])"
    "\<forall>a. PRef a \<in> set [PRef 0] \<longrightarrow>
        heap st' ! a = AList.delete ''array'' (heap ex_loaded ! a)
        \<and> ''array'' \<notin> fst ` set (heap st' ! a)"
    by blast
  then have "\<exists>ok st' c'. save_current_case ex_env ex_loaded None = Inr (ok, st')
         \<and> get_current_case st' = Some c'
         \<and> getitem c' ''files'' = Inr (PList [PRef 0])
         \<and> ''array'' \<notin> fst ` set (heap st' ! 0)"
    by auto
  with before show ?thesis by blast
qed

lemma json_value_results_dict: "json_value (results_dict r) = None"
  by (simp add: results_dict_def)

lemma ex_env_fields:
  "iso_now ex_env = ''2024-01-01T12:00:00''" "writable ex_env p"
  "default_path ex_env v = ''/tmp/case.json''"
  by (simp_all add: ex_env_def)

text \<open>The round trip of the example case, which carries no prediction results: the saved
  text reloads as a case of the same id, name and metadata, whose file record has the same
  sequence type and no array.\<close>

lemma ex_saved_eq:
  "save_current_case ex_env ex_loaded None = Inr (True, ex_saved)
   \<and> ex_saved = \<lparr> cases = [ex_case], current_case_index = 0,
        heap = [AList.delete ''array'' ex_file],
        disk = (\<lambda>p. NoFile)(''/tmp/case.json'' := JsonText (PDict
          [(''id'', PStr ''case_20240101_120000''), (''name'', PStr ''Caso p1''),
           (''files'', PList [PDict
              [(''path'', PStr ''/data/p1/T2W.nii.gz''), (''format'', PStr ''.nii.gz''),
               (''loaded_with'', PStr ''SimpleITK''),
               (''metadata'', PDict [(''dimensions'', PList [PInt 2, PInt 2, PInt 1]),
                                     (''0010|0020 PatientID'', PStr ''P-17'')]),
               (''sequence_type'', PStr ''t2w'')]]),
           (''metadata'', PDict [(''patient_id'', PStr ''P-17'')]),
           (''created_date'', PStr ''2024-01-01T12:00:00''),
           (''modified_date'', PStr ''2024-01-01T12:00:00''),
           (''has_changes'', PBool False)])) \<rparr>"
proof -
  have cur: "\<not> no_current ex_loaded"
    by (simp add: ex_loaded_def no_current_def)
  have c: "current ex_loaded = ex_case"
    by (simp add: ex_loaded_def current_def)
  have m: "setitem ex_case ''modified_date'' (PStr ''2024-01-01T12:00:00'') = Inr ex_case"
    by (simp add: ex_case_def)
  have same: "put_current ex_loaded ex_case = ex_loaded"
    by (simp add: ex_loaded_def put_current_def)
  have path: "save_path ex_env ex_case None = Inr ''/tmp/case.json''"
    by (simp add: save_path_def ex_case_def ex_env_fields)
  have strip: "strip_arrays [ex_file] [PRef 0] = (True, [AList.delete ''array'' ex_file])"
    by (simp add: ex_file_def)
  have f: "getitem ex_case ''files'' = Inr (PList [PRef 0])"
    by (simp add: ex_case_def)
  have snap: "json_value (snapshot [AList.delete ''array'' ex_file] ex_case) = Some (PDict
          [(''id'', PStr ''case_20240101_120000''), (''name'', PStr ''Caso p1''),
           (''files'', PList [PDict
              [(''path'', PStr ''/data/p1/T2W.nii.gz''), (''format'', PStr ''.nii.gz''),
               (''loaded_with'', PStr ''SimpleITK''),
               (''metadata'', PDict [(''dimensions'', PList [PInt 2, PInt 2, PInt 1]),
                                     (''0010|0020 PatientID'', PStr ''P-17'')]),
               (''sequence_type'', PStr ''t2w'')]]),
           (''metadata'', PDict [(''patient_id'', PStr ''P-17'')]),
           (''created_date'', PStr ''2024-01-01T12:00:00''),
           (''modified_date'', PStr ''2024-01-01T12:00:00''),
           (''has_changes'', PBool False)])"
    by (simp add: snapshot_def deref_def ex_case_def ex_file_def)
  have hc: "setitem ex_case ''has_changes'' (PBool False) = Inr ex_case"
    by (simp add: ex_case_def)
  have h: "heap ex_loaded = [ex_file]"
    by (simp add: ex_loaded_def)
  have dump: "dump_case ex_loaded ''/tmp/case.json'' ex_case =
      (True, write_disk (put_current (ex_loaded\<lparr>heap := [AList.delete ''array'' ex_file]\<rparr>) ex_case)
               ''/tmp/case.json'' (JsonText (the (json_value (snapshot [AList.delete ''array'' ex_file] ex_case)))))"
    by (simp add: dump_case_def f h strip snap hc Let_def del: strip_arrays.simps)
  have save: "save_current_case ex_env ex_loaded None = Inr (dump_case ex_loaded ''/tmp/case.json'' ex_case)"
    by (simp add: save_current_case_def cur c path ex_env_fields m same)
  have saved: "ex_saved = snd (dump_case ex_loaded ''/tmp/case.json'' ex_case)"
    by (simp add: ex_saved_def save split_beta)
  show ?thesis
    unfolding saved save dump
    by (simp add: snap write_disk_def put_current_def ex_loaded_def)
qed

lemma ex_round_trip:
  "save_current_case ex_env ex_loaded None = Inr (True, ex_saved)
   \<and> (\<exists>c' st2. load_case_from_file ex_saved ''/tmp/case.json'' = (Inr c', st2)
        \<and> get_current_case st2 = Some c'
        \<and> getitem c' ''id'' = getitem ex_case ''id''
        \<and> getitem c' ''name'' = getitem ex_case ''name''
        \<and> getitem c' ''metadata'' = getitem ex_case ''metadata''
        \<and> getitem c' ''files'' = Inr (PList [PRef 1])
        \<and> map_of (heap st2 ! 1) ''sequence_type'' = map_of ex_file ''sequence_type''
        \<and> ''array'' \<notin> fst ` set (heap st2 ! 1))"
proof -
  note s = ex_saved_eq [THEN conjunct2]
  have "\<exists>c' st2. load_case_from_file ex_saved ''/tmp/case.json'' = (Inr c', st2)
        \<and> get_current_case st2 = Some c'
        \<and> getitem c' ''id'' = getitem ex_case ''id''
        \<and> getitem c' ''name'' = getitem ex_case ''name''
        \<and> getitem c' ''metadata'' = getitem ex_case ''metadata''
        \<and> getitem c' ''files'' = Inr (PList [PRef 1])
        \<and> map_of (heap st2 ! 1) ''sequence_type'' = map_of ex_file ''sequence_type''
        \<and> ''array'' \<notin> fst ` set (heap st2 ! 1)"
    by (simp add: load_case_from_file_def s intern_case_def get_current_case_def no_current_def
        current_def ex_case_def ex_file_def)
  with ex_saved_eq show ?thesis by blast
qed

lemma ex_predicted_eq:
  "set_current_case_prediction_results ex_env ex_loaded ex_results = Inr (True, ex_predicted)
   \<and> ex_predicted = \<lparr> cases = [PDict
     [(''id'', PStr ''case_20240101_120000''), (''name'', PStr ''Caso p1''),
      (''files'', PList [PRef 0]), (''metadata'', PDict [(''patient_id'', PStr ''P-17'')]),
      (''created_date'', PStr ''2024-01-01T12:00:00''),
      (''modified_date'', PStr ''2024-01-01T12:00:00''),
      (''has_changes'', PBool True), (''prediction_results'', ex_results)]],
      current_case_index = 0, heap = [ex_file], disk = (\<lambda>p. NoFile) \<rparr>"
  by (simp add: ex_predicted_def set_current_case_prediction_results_def no_current_def
      current_def put_current_def mark_modified_def ex_env_fields ex_loaded_def ex_case_def)

lemma ex_predicted_saved_eq:
  "save_current_case ex_env ex_predicted None = Inr (False, ex_predicted_saved)
   \<and> disk ex_predicted_saved ''/tmp/case.json'' = Garbage
   \<and> heap ex_predicted_saved = [AList.delete ''array'' ex_file]"
proof -
  note p = ex_predicted_eq [THEN conjunct2]
  let ?c = "PDict
     [(''id'', PStr ''case_20240101_120000''), (''name'', PStr ''Caso p1''),
      (''files'', PList [PRef 0]), (''metadata'', PDict [(''patient_id'', PStr ''P-17'')]),
      (''created_date'', PStr ''2024-01-01T12:00:00''),
      (''modified_date'', PStr ''2024-01-01T12:00:00''),
      (''has_changes'', PBool True), (''prediction_results'', ex_results)]"
  have cur: "\<not> no_current ex_predicted"
    by (simp add: p no_current_def)
  have c: "current ex_predicted = ?c"
    by (simp add: p current_def)
  have same: "put_current ex_predicted ?c = ex_predicted"
    by (simp add: p put_current_def)
  have h: "heap ex_predicted = [ex_file]"
    by (simp add: p)
  have js: "json_value ex_results = None"
    by (simp add: ex_results_def json_value_results_dict)
  have strip: "strip_arrays [ex_file] [PRef 0] = (True, [AList.delete ''array'' ex_file])"
    by (simp add: ex_file_def)
  have snap: "json_value (snapshot [AList.delete ''array'' ex_file] ?c) = None"
    by (simp add: snapshot_def deref_def js ex_file_def)
  have dump: "dump_case ex_predicted ''/tmp/case.json'' ?c =
      (False, write_disk (ex_predicted\<lparr>heap := [AList.delete ''array'' ex_file]\<rparr>)
                ''/tmp/case.json'' Garbage)"
    by (simp add: dump_case_def h strip snap Let_def del: strip_arrays.simps)
  have "save_current_case ex_env ex_predicted None =
      Inr (False, write_disk (ex_predicted\<lparr>heap := [AList.delete ''array'' ex_file]\<rparr>)
                    ''/tmp/case.json'' Garbage)"
    by (simp add: save_current_case_def cur c save_path_def ex_env_fields same dump)
  then show ?thesis
    by (simp add: ex_predicted_saved_def write_disk_def)
qed

text \<open>
  C6. Saving a case and reloading it reproduces its id, name, sequence types and metadata,
  with the arrays absent. The code does not do so for a case that carries the results of a
  prediction: the result dictionary holds the segmentation array, save\_current\_case strips
  arrays from the file records only, the serialisation raises, the call returns False and
  leaves a file that is not JSON, and load\_case\_from\_file raises on it. Evaluated on the
  example case after the results of the example prediction are attached.
\<close>

theorem save_fails_with_prediction_results:
  "set_current_case_prediction_results ex_env ex_loaded ex_results = Inr (True, ex_predicted)
   \<and> get_current_case_prediction_results ex_predicted = Inr ex_results
   \<and> save_current_case ex_env ex_predicted None = Inr (False, ex_predicted_saved)
   \<and> disk ex_predicted_saved ''/tmp/case.json'' = Garbage
   \<and> load_case_from_file ex_predicted_saved ''/tmp/case.json''
       = (Inl ValueError, ex_predicted_saved)"
proof -
  note p = ex_predicted_eq [THEN conjunct2]
  have "get_current_case_prediction_results ex_predicted = Inr ex_results"
    by (simp add: get_current_case_prediction_results_def no_current_def current_def p)
  moreover have "load_case_from_file ex_predicted_saved ''/tmp/case.json''
      = (Inl ValueError, ex_predicted_saved)"
    using ex_predicted_saved_eq by (simp add: load_case_from_file_def)
  ultimately show ?thesis
    using ex_predicted_eq ex_predicted_saved_eq by simp
qed

section \<open>Properties of the prediction controller\<close>

lemma start_prediction_rejects_when_running:
  assumes "is_running ctl"
  shows "\<exists>err. start_prediction pe ctl case_data = (Some err, ctl)"
  using assms
  by (auto simp: start_prediction_def split: sum.splits bool.splits)

lemma start_worker_ok:
  assumes "ctl_ok ctl" "\<not> is_running ctl"
  shows "ctl_ok (start_worker ctl)"
proof -
  have none: "\<not> threads ctl ! w" if "w < length (threads ctl)" for w
  proof
    assume r: "threads ctl ! w"
    with assms(1) that have "worker ctl = Some w" by (simp add: ctl_ok_def)
    with r assms(2) show False by (simp add: is_running_def)
  qed
  show ?thesis
    unfolding ctl_ok_def start_worker_def
    by (auto simp: nth_append none less_Suc_eq)
qed

lemma ctl_ok_model_path [simp]: "ctl_ok (ctl\<lparr>model_path := p\<rparr>) = ctl_ok ctl"
  by (simp add: ctl_ok_def)

lemma is_running_model_path [simp]: "is_running (ctl\<lparr>model_path := p\<rparr>) = is_running ctl"
  by (simp add: is_running_def split: option.splits)

lemma start_prediction_ok:
  assumes "ctl_ok ctl"
  shows "ctl_ok (snd (start_prediction pe ctl case_data))"
  using assms
  by (auto simp: start_prediction_def Let_def start_worker_ok split: sum.splits bool.splits)

lemma worker_finished_ok:
  assumes "ctl_ok ctl"
  shows "ctl_ok (worker_finished w ctl)"
proof -
  have "threads ctl ! i" if "(threads ctl)[w := False] ! i" "i < length (threads ctl)" for i
    using that by (cases "i = w") simp_all
  with assms show ?thesis
    by (auto simp: ctl_ok_def worker_finished_def)
qed

lemma ctl_after_ok: "ctl_ok ctl \<Longrightarrow> ctl_ok (ctl_after pe ctl ev)"
  by (cases ev) (simp_all add: start_prediction_ok worker_finished_ok)

lemma run_ctl_ok: "ctl_ok ctl \<Longrightarrow> ctl_ok (foldl (ctl_after pe) ctl evs)"
  by (induction evs arbitrary: ctl) (simp_all add: ctl_after_ok)

lemma filter_id_le_one:
  assumes "\<forall>i < length bs. \<forall>j < length bs. bs ! i \<and> bs ! j \<longrightarrow> i = j"
  shows "length (filter (\<lambda>b. b) bs) \<le> 1"
  using assms
proof (induction bs)
  case Nil
  then show ?case by simp
next
  case (Cons b bs)
  have tl: "\<forall>i < length bs. \<forall>j < length bs. bs ! i \<and> bs ! j \<longrightarrow> i = j"
  proof (intro allI impI)
    fix i j assume "i < length bs" "j < length bs" "bs ! i \<and> bs ! j"
    with Cons.prems [rule_format, of "Suc i" "Suc j"] show "i = j" by simp
  qed
  show ?case
  proof (cases b)
    case True
    have "\<not> bs ! i" if "i < length bs" for i
      using Cons.prems [rule_format, of 0 "Suc i"] that True by auto
    then have "filter (\<lambda>b. b) bs = []"
      by (auto simp: filter_empty_conv in_set_conv_nth)
    with True show ?thesis by simp
  next
    case False
    with Cons.IH [OF tl] show ?thesis by simp
  qed
qed

lemma ctl_ok_at_most_one:
  assumes "ctl_ok ctl"
  shows "running_workers ctl \<le> 1"
  unfolding running_workers_def
proof (rule filter_id_le_one, intro allI impI)
  fix i j assume "i < length (threads ctl)" "j < length (threads ctl)"
    "threads ctl ! i \<and> threads ctl ! j"
  with assms have "worker ctl = Some i" "worker ctl = Some j"
    unfolding ctl_ok_def by blast+
  then show "i = j" by simp
qed

text \<open>
  C7. A call of start\_prediction made while the worker held by the controller is running
  raises an error and leaves the controller unchanged: no worker is created, started or
  queued (when the libraries are present and a case is given, the error is the ValueError of
  the running check). Every running worker is the one the controller holds, initially and
  after every call and every end of a run, so at most one worker is running at any time.
\<close>

theorem one_prediction_worker_at_a_time:
  "(is_running ctl \<longrightarrow> (\<exists>err. start_prediction pe ctl case_data = (Some err, ctl)))
   \<and> (is_running ctl \<and> TORCH_AVAILABLE pe \<and> MONAI_AVAILABLE pe \<and> no_case case_data = Inr False
        \<longrightarrow> start_prediction pe ctl case_data = (Some ValueError, ctl))
   \<and> ctl_ok (init_controller p)
   \<and> (ctl_ok ctl \<longrightarrow> ctl_ok (ctl_after pe ctl ev))
   \<and> (ctl_ok ctl \<longrightarrow> running_workers ctl \<le> 1)
   \<and> running_workers (foldl (ctl_after pe) (init_controller p) evs) \<le> 1"
proof -
  have init: "ctl_ok (init_controller p)"
    by (simp add: ctl_ok_def init_controller_def)
  have rej: "start_prediction pe ctl case_data = (Some ValueError, ctl)"
    if "is_running ctl \<and> TORCH_AVAILABLE pe \<and> MONAI_AVAILABLE pe \<and> no_case case_data = Inr False"
    using that by (simp add: start_prediction_def)
  have run: "running_workers (foldl (ctl_after pe) (init_controller p) evs) \<le> 1"
    by (rule ctl_ok_at_most_one, rule run_ctl_ok, rule init)
  from init rej run show ?thesis
    using start_prediction_rejects_when_running [of ctl pe case_data]
      ctl_after_ok [of ctl pe ev] ctl_ok_at_most_one [of ctl]
    by blast
qed

theorem one_prediction_worker_at_a_time_witness:
  "is_running (ctl_after ex_pred_env (init_controller ''models/m.pth'') (Start ex_case))
   \<and> start_prediction ex_pred_env
        (ctl_after ex_pred_env (init_controller ''models/m.pth'') (Start ex_case)) ex_case
      = (Some ValueError, ctl_after ex_pred_env (init_controller ''models/m.pth'') (Start ex_case))
   \<and> running_workers (ctl_after ex_pred_env (init_controller ''models/m.pth'') (Start ex_case)) = 1
   \<and> running_workers
        (ctl_after ex_pred_env
           (ctl_after ex_pred_env (init_controller ''models/m.pth'') (Start ex_case))
           (Start ex_case)) = 1"
proof -
  let ?c0 = "init_controller ''models/m.pth''"
  let ?c1 = "ctl_after ex_pred_env ?c0 (Start ex_case)"
  have nc: "no_case ex_case = Inr False"
    by (simp add: no_case_def ex_case_def)
  have c1: "?c1 = \<lparr> model_path = ''models/m.pth'', worker = Some 0, threads = [True] \<rparr>"
    by (simp add: start_prediction_def nc ex_pred_env_def init_controller_def is_running_def
        start_worker_def)
  have run: "is_running ?c1"
    by (subst c1) (simp add: is_running_def)
  have av: "TORCH_AVAILABLE ex_pred_env \<and> MONAI_AVAILABLE ex_pred_env"
    by (simp add: ex_pred_env_def)
  note t = one_prediction_worker_at_a_time [of ?c1 ex_pred_env ex_case "''models/m.pth''" "Start ex_case" "[]"]
  from t run av nc
  have rej: "start_prediction ex_pred_env ?c1 ex_case = (Some ValueError, ?c1)"
    by blast
  have one: "running_workers ?c1 = 1"
    by (subst c1) (simp add: running_workers_def)
  from rej have again: "ctl_after ex_pred_env ?c1 (Start ex_case) = ?c1"
    by (simp del: ctl_after.simps add: ctl_after.simps [of ex_pred_env ?c1])
  from run rej one show ?thesis
    unfolding again by blast
qed

end
